theory Spec2Isabelle
  imports Main "HOL-Library.Sublist"
begin

section \<open>JavaScript strings\<close>

text \<open>
  A JavaScript string is a sequence of UTF-16 code units; a code unit is modelled by its
  number. The Russian letters the sources mention are single code units:
  U+0451 is the small letter yo, U+0435 the small letter ie it is folded to.

  \<open>toLowerCase\<close> and the case folding of the \<open>/i\<close> flag are functions of the
  JavaScript runtime, given by the Unicode character database. They are modelled code
  unit by code unit, and exactly so on Basic Latin, the Latin-1 Supplement and the two
  Cyrillic blocks U+0400..U+052F (Russian, and the letters Tuvan adds to it), together
  with the code units outside these blocks that are mapped into them. Every other code
  unit is left as it is; among these U+0130, which \<open>toLowerCase\<close> turns into two code
  units, the other alphabets, and the surrogate pairs.
\<close>

type_synonym ustring = "nat list"

text \<open>A literal made of ASCII characters only.\<close>

definition ascii :: "string \<Rightarrow> ustring" where
  "ascii s = map of_char s"

definition toLowerCase_unit :: "nat \<Rightarrow> nat" where
  "toLowerCase_unit c =
     (if 0x41 \<le> c \<and> c \<le> 0x5A then c + 0x20
      else if 0xC0 \<le> c \<and> c \<le> 0xDE \<and> c \<noteq> 0xD7 then c + 0x20
      else if c = 0x178 then 0xFF
      else if 0x400 \<le> c \<and> c \<le> 0x40F then c + 0x50
      else if 0x410 \<le> c \<and> c \<le> 0x42F then c + 0x20
      else if (0x460 \<le> c \<and> c \<le> 0x480 \<or> 0x48A \<le> c \<and> c \<le> 0x4BE \<or> 0x4D0 \<le> c \<and> c \<le> 0x52E)
              \<and> even c then c + 1
      else if c = 0x4C0 then 0x4CF
      else if 0x4C1 \<le> c \<and> c \<le> 0x4CD \<and> odd c then c + 1
      else if c = 0x1E9E then 0xDF
      else if c = 0x212A then 0x6B
      else if c = 0x212B then 0xE5
      else c)"

definition toLowerCase :: "ustring \<Rightarrow> ustring" where
  "toLowerCase s = map toLowerCase_unit s"

text \<open>
  \<open>Canonicalize\<close> of a case-insensitive regular expression without the \<open>u\<close> flag:
  the upper case of the code unit, except that a code unit above 127 never becomes
  one below 128.
\<close>

definition canonicalize :: "nat \<Rightarrow> nat" where
  "canonicalize c =
     (if 0x61 \<le> c \<and> c \<le> 0x7A then c - 0x20
      else if 0xE0 \<le> c \<and> c \<le> 0xFE \<and> c \<noteq> 0xF7 then c - 0x20
      else if c = 0xFF then 0x178
      else if c = 0xB5 then 0x39C
      else if 0x430 \<le> c \<and> c \<le> 0x44F then c - 0x20
      else if 0x450 \<le> c \<and> c \<le> 0x45F then c - 0x50
      else if (0x461 \<le> c \<and> c \<le> 0x481 \<or> 0x48B \<le> c \<and> c \<le> 0x4BF \<or> 0x4D1 \<le> c \<and> c \<le> 0x52F)
              \<and> odd c then c - 1
      else if c = 0x4CF then 0x4C0
      else if 0x4C2 \<le> c \<and> c \<le> 0x4CE \<and> even c then c - 1
      else if c = 0x1C80 then 0x412
      else if c = 0x1C81 then 0x414
      else if c = 0x1C82 then 0x41E
      else if c = 0x1C83 then 0x421
      else if c = 0x1C84 \<or> c = 0x1C85 then 0x422
      else if c = 0x1C86 then 0x42A
      else if c = 0x1C87 then 0x462
      else if c = 0x1C88 then 0xA64A
      else c)"

text \<open>The code units matched by \<open>\s\<close> and removed by \<open>trim\<close>.\<close>

definition isWhiteSpace :: "nat \<Rightarrow> bool" where
  "isWhiteSpace c \<longleftrightarrow>
     c = 0x09 \<or> c = 0x0A \<or> c = 0x0B \<or> c = 0x0C \<or> c = 0x0D \<or> c = 0x20 \<or> c = 0xA0 \<or>
     c = 0x1680 \<or> (0x2000 \<le> c \<and> c \<le> 0x200A) \<or> c = 0x2028 \<or> c = 0x2029 \<or>
     c = 0x202F \<or> c = 0x205F \<or> c = 0x3000 \<or> c = 0xFEFF"

definition trim :: "ustring \<Rightarrow> ustring" where
  "trim s = rev (dropWhile isWhiteSpace (rev (dropWhile isWhiteSpace s)))"

text \<open>\<open>s.replace(/<yo>/g, '<ie>')\<close>\<close>

definition replace_yo :: "ustring \<Rightarrow> ustring" where
  "replace_yo s = map (\<lambda>c. if c = 0x451 then 0x435 else c) s"

text \<open>
  \<open>s.split(/X+/)\<close> for a class \<open>X\<close> of code units: the pieces between the maximal
  runs of \<open>X\<close>, with an empty first piece when \<open>s\<close> starts with a run and an empty last
  piece when it ends with one; the empty string gives one empty piece.
\<close>

function split_runs :: "(nat \<Rightarrow> bool) \<Rightarrow> ustring \<Rightarrow> ustring list" where
  "split_runs P s =
     (let piece = takeWhile (\<lambda>c. \<not> P c) s; rest = dropWhile (\<lambda>c. \<not> P c) s
      in if rest = [] then [piece] else piece # split_runs P (dropWhile P rest))"
  by pat_completeness auto
termination
proof (relation "measure (\<lambda>(P, s). length s)")
  show "wf (measure (\<lambda>(P, s). length s))" by simp
next
  fix P :: "nat \<Rightarrow> bool" and s piece rest :: ustring
  assume r: "rest = dropWhile (\<lambda>c. \<not> P c) s" and ne: "rest \<noteq> []"
  from ne obtain c cs where rc: "rest = c # cs" by (cases rest) auto
  have "length (dropWhile P rest) \<le> length cs"
  proof -
    from r rc have "dropWhile (\<lambda>c. \<not> P c) s = c # cs" by simp
    then have "P c" by (simp add: dropWhile_eq_Cons_conv)
    then show ?thesis by (simp add: rc length_dropWhile_le)
  qed
  moreover have "length rest \<le> length s" by (simp add: r length_dropWhile_le)
  ultimately show "((P, dropWhile P rest), (P, s)) \<in> measure (\<lambda>(P, s). length s)"
    by (simp add: rc)
qed

declare split_runs.simps [simp del]

text \<open>\<open>parts.join(sep)\<close>\<close>

fun join :: "ustring \<Rightarrow> ustring list \<Rightarrow> ustring" where
  "join sep [] = []"
| "join sep [x] = x"
| "join sep (x # y # ys) = x @ sep @ join sep (y # ys)"

text \<open>
  A string-typed field of a JSON record: the interface declares a string, the data comes
  from JSON, and the code guards against \<open>undefined\<close> and \<open>null\<close>.
\<close>

datatype jsstr = Undefined | Null | Str ustring

text \<open>Truthiness: \<open>undefined\<close>, \<open>null\<close> and the empty string are falsy.\<close>

fun truthy :: "jsstr \<Rightarrow> bool" where
  "truthy (Str s) = (s \<noteq> [])"
| "truthy _ = False"

text \<open>\<open>(s || '')\<close>\<close>

fun or_empty :: "jsstr \<Rightarrow> ustring" where
  "or_empty (Str s) = s"
| "or_empty _ = []"

text \<open>\<open>String(v)\<close>, as \<open>RegExp.prototype.test\<close> applies it to its argument.\<close>

fun ToString :: "jsstr \<Rightarrow> ustring" where
  "ToString Undefined = ascii ''undefined''"
| "ToString Null = ascii ''null''"
| "ToString (Str s) = s"

subsection \<open>The regular expressions of the sources\<close>

text \<open>
  The patterns used are sequences of literal code units (compared case-insensitively),
  \<open>\s+\<close> and \<open>\d\<close>. \<open>match_here\<close> matches a pattern at the start of a string,
  \<open>regex_test\<close> anywhere in it, as \<open>test\<close> does without the \<open>g\<close> and \<open>y\<close> flags.
\<close>

datatype atom = Ch nat | Spaces | Digit

fun match_here :: "atom list \<Rightarrow> ustring \<Rightarrow> bool" where
  "match_here [] s = True"
| "match_here (a # ps) [] = False"
| "match_here (Ch p # ps) (c # s) = (canonicalize c = canonicalize p \<and> match_here ps s)"
| "match_here (Digit # ps) (c # s) = (0x30 \<le> c \<and> c \<le> 0x39 \<and> match_here ps s)"
| "match_here (Spaces # ps) (c # s) =
     (isWhiteSpace c \<and> (match_here (Spaces # ps) s \<or> match_here ps s))"

fun regex_test :: "atom list \<Rightarrow> ustring \<Rightarrow> bool" where
  "regex_test ps [] = match_here ps []"
| "regex_test ps (c # s) = (match_here ps (c # s) \<or> regex_test ps s)"

text \<open>A string ends with a pattern: the \<open>$\<close> anchor without the \<open>m\<close> flag.\<close>

fun match_end :: "atom list \<Rightarrow> ustring \<Rightarrow> bool" where
  "match_end [] s = (s = [])"
| "match_end (a # ps) [] = False"
| "match_end (Ch p # ps) (c # s) = (canonicalize c = canonicalize p \<and> match_end ps s)"
| "match_end (Digit # ps) (c # s) = (0x30 \<le> c \<and> c \<le> 0x39 \<and> match_end ps s)"
| "match_end (Spaces # ps) (c # s) =
     (isWhiteSpace c \<and> (match_end (Spaces # ps) s \<or> match_end ps s))"

fun regex_test_end :: "atom list \<Rightarrow> ustring \<Rightarrow> bool" where
  "regex_test_end ps [] = match_end ps []"
| "regex_test_end ps (c # s) = (match_end ps (c # s) \<or> regex_test_end ps s)"

text \<open>The insertion-ordered \<open>Map\<close> and \<open>Set\<close> of JavaScript.\<close>

fun Map_set :: "'k \<Rightarrow> 'v \<Rightarrow> ('k \<times> 'v) list \<Rightarrow> ('k \<times> 'v) list" where
  "Map_set k v [] = [(k, v)]"
| "Map_set k v ((k', v') # m) = (if k' = k then (k, v) # m else (k', v') # Map_set k v m)"

definition Map_get :: "('k \<times> 'v) list \<Rightarrow> 'k \<Rightarrow> 'v option" where
  "Map_get m k = map_of m k"

definition Map_has :: "('k \<times> 'v) list \<Rightarrow> 'k \<Rightarrow> bool" where
  "Map_has m k \<longleftrightarrow> map_of m k \<noteq> None"

definition Map_values :: "('k \<times> 'v) list \<Rightarrow> 'v list" where
  "Map_values m = map snd m"

definition Set_add :: "'a \<Rightarrow> 'a list \<Rightarrow> 'a list" where
  "Set_add x xs = (if x \<in> set xs then xs else xs @ [x])"

definition Set_from :: "'a list \<Rightarrow> 'a list" where
  "Set_from xs = foldl (\<lambda>acc x. Set_add x acc) [] xs"

section \<open>Doctor records\<close>

text \<open>
  \<open>ArchimedDoctor\<close> and the elements of its \<open>types\<close> array. A field that the code
  guards with \<open>|| ''\<close>, \<open>!\<close> or \<open>isEmpty\<close> is a \<open>jsstr\<close>; \<open>types\<close> is guarded with
  \<open>|| []\<close>, so it may be missing. The fields that no function below reads or writes
  are kept together in \<open>other\<close>; \<open>doc_id\<close> is the field \<open>id\<close>.
\<close>

record doctor_type =
  type_id :: int
  type_name :: jsstr

record doctor_other =
  code :: jsstr
  max_time :: jsstr
  phone :: jsstr
  snils :: jsstr
  zone_id :: int
  zone :: jsstr
  branch_id :: int
  branch :: jsstr
  category_id :: int
  scientific_degree_id :: int
  user_id :: int
  address :: jsstr
  building_name :: jsstr
  building_web_name :: jsstr
  primary_type_id :: int

record doctor =
  doc_id :: int
  name :: jsstr
  name1 :: jsstr
  name2 :: jsstr
  type :: jsstr
  info :: jsstr
  category :: jsstr
  scientific_degree :: jsstr
  photo :: jsstr
  types :: "doctor_type list option"
  other :: doctor_other

subsection \<open>The name blacklist\<close>

text \<open>\<open>[^a-z<a>-<ya>0-9]\<close>: the complement of a-z, U+0430..U+044F and 0-9.\<close>

definition not_alnum :: "nat \<Rightarrow> bool" where
  "not_alnum c \<longleftrightarrow>
     \<not> ((0x61 \<le> c \<and> c \<le> 0x7A) \<or> (0x430 \<le> c \<and> c \<le> 0x44F) \<or> (0x30 \<le> c \<and> c \<le> 0x39))"

text \<open>\<open>s.replace(/X+/g, ' ')\<close>: every maximal run of \<open>X\<close> becomes one space.\<close>

fun replace_runs :: "(nat \<Rightarrow> bool) \<Rightarrow> ustring \<Rightarrow> ustring" where
  "replace_runs P [] = []"
| "replace_runs P [c] = (if P c then [0x20] else [c])"
| "replace_runs P (c # d # s) =
     (if P c then (if P d then replace_runs P (d # s) else 0x20 # replace_runs P (d # s))
      else c # replace_runs P (d # s))"

definition normalizeRu :: "jsstr \<Rightarrow> ustring" where
  "normalizeRu s = trim (replace_runs not_alnum (replace_yo (toLowerCase (or_empty s))))"

text \<open>\<open>[d?.name, d?.name1, d?.name2].filter(Boolean).join(' ')\<close>\<close>

definition joined_name :: "doctor \<Rightarrow> ustring" where
  "joined_name d = join [0x20] (map or_empty (filter truthy [name d, name1 d, name2 d]))"

definition makeFullName :: "doctor \<Rightarrow> ustring" where
  "makeFullName d = normalizeRu (Str (joined_name d))"

text \<open>The one entry of \<open>NAME_BLACKLIST\<close>, 23 code units (three Russian words).\<close>

definition NAME_BLACKLIST :: "ustring list" where
  "NAME_BLACKLIST =
     [[0x445, 0x43E, 0x440, 0x431, 0x430, 0x430, 0x20,
       0x430, 0x43D, 0x436, 0x435, 0x43B, 0x430, 0x20,
       0x442, 0x430, 0x440, 0x430, 0x441, 0x43E, 0x432, 0x43D, 0x430]]"

definition isBlacklisted :: "doctor \<Rightarrow> bool" where
  "isBlacklisted d \<longleftrightarrow> makeFullName d \<in> set NAME_BLACKLIST"

definition applyRemovals :: "doctor list \<Rightarrow> doctor list" where
  "applyRemovals list = filter (\<lambda>d. \<not> isBlacklisted d) list"

section \<open>mergeDoctors\<close>

text \<open>
  The local \<open>normalize\<close> of \<open>mergeDoctors\<close> (\<open>normalize\<close> itself is a constant
  of HOL).
\<close>

definition normalize_str :: "jsstr \<Rightarrow> ustring" where
  "normalize_str s = trim (replace_yo (toLowerCase (or_empty s)))"

text \<open>\<open>`${normalize(d.name)}|${normalize(d.name1)}|${normalize(d.name2)}`\<close>\<close>

definition makeNameKey :: "doctor \<Rightarrow> ustring" where
  "makeNameKey d = normalize_str (name d) @ [0x7C] @ normalize_str (name1 d) @ [0x7C] @ normalize_str (name2 d)"

definition isEmpty :: "jsstr \<Rightarrow> bool" where
  "isEmpty v \<longleftrightarrow> v = Undefined \<or> v = Null \<or> (case v of Str s \<Rightarrow> trim s = [] | _ \<Rightarrow> False)"

text \<open>The string \<open>'<bez stepeni>'\<close> ("no degree"), 11 code units.\<close>

definition no_degree :: ustring where
  "no_degree = [0x431, 0x435, 0x437, 0x20, 0x441, 0x442, 0x435, 0x43F, 0x435, 0x43D, 0x438]"

text \<open>\<open>/(<kategor>)/i\<close>\<close>

definition re_category :: "atom list" where
  "re_category = map Ch [0x43A, 0x430, 0x442, 0x435, 0x433, 0x43E, 0x440]"

definition looksLikeCategory :: "jsstr \<Rightarrow> bool" where
  "looksLikeCategory s = regex_test re_category (ToString s)"

text \<open>\<open>/<stazh>\s+<s>\s+\d{4}/i\<close> and \<open>/<vrachebnyi>\s+<stazh>\s+<s>\s+\d{4}/i\<close>\<close>

definition re_experience :: "atom list" where
  "re_experience =
     map Ch [0x441, 0x442, 0x430, 0x436] @ [Spaces, Ch 0x441, Spaces, Digit, Digit, Digit, Digit]"

definition re_med_experience :: "atom list" where
  "re_med_experience =
     map Ch [0x432, 0x440, 0x430, 0x447, 0x435, 0x431, 0x43D, 0x44B, 0x439] @ Spaces # re_experience"

text \<open>\<open>/<Smezhnye spetsialnosti>/i\<close>: two words with one space between them.\<close>

definition re_extras :: "atom list" where
  "re_extras =
     map Ch [0x421, 0x43C, 0x435, 0x436, 0x43D, 0x44B, 0x435, 0x20,
             0x441, 0x43F, 0x435, 0x446, 0x438, 0x430, 0x43B, 0x44C, 0x43D, 0x43E, 0x441, 0x442, 0x438]"

definition hasExperience :: "ustring \<Rightarrow> bool" where
  "hasExperience t \<longleftrightarrow> regex_test re_experience t \<or> regex_test re_med_experience t"

definition is_newline :: "nat \<Rightarrow> bool" where
  "is_newline c \<longleftrightarrow> c = 0x0A"

text \<open>The new \<open>info\<close> of a merged record.\<close>

definition merged_info :: "doctor \<Rightarrow> doctor \<Rightarrow> ustring" where
  "merged_info base add =
     (let infoText = or_empty (info base);
          addInfo = or_empty (info add);
          parts0 = (if infoText \<noteq> [] then [infoText] else []);
          parts1 = (if \<not> hasExperience infoText \<and> hasExperience addInfo
                    then parts0 @ [hd (split_runs is_newline addInfo)] else parts0);
          addExtrasLine = find (regex_test re_extras) (split_runs is_newline addInfo);
          parts2 = (case addExtrasLine of
                      Some l \<Rightarrow> if l \<noteq> [] \<and> \<not> regex_test re_extras infoText then parts1 @ [l] else parts1
                    | None \<Rightarrow> parts1)
      in join [0x0A] (filter (\<lambda>p. p \<noteq> []) parts2))"

text \<open>The names of the merged \<open>types\<close>: \<open>Array.from(mergedTypeNames).filter(Boolean)\<close>.\<close>

definition type_names :: "doctor \<Rightarrow> ustring list" where
  "type_names d =
     Set_from (normalize_str (type d) # map (\<lambda>t. normalize_str (type_name t)) (case types d of Some ts \<Rightarrow> ts | None \<Rightarrow> []))"

definition merged_type_names :: "doctor \<Rightarrow> doctor \<Rightarrow> ustring list" where
  "merged_type_names base add =
     filter (\<lambda>n. n \<noteq> [])
       (foldl (\<lambda>acc n. if n \<noteq> [] \<and> n \<notin> set acc then acc @ [n] else acc)
          (type_names base) (type_names add))"

definition mergeOne :: "doctor \<Rightarrow> doctor \<Rightarrow> doctor" where
  "mergeOne base add =
     (let merged = base;
          merged = (if (\<not> truthy (photo base) \<or> photo base = Str []) \<and> truthy (photo add)
                    then merged\<lparr>photo := photo add\<rparr> else merged);
          baseDeg = normalize_str (Str (or_empty (scientific_degree base)));
          addDeg = normalize_str (Str (or_empty (scientific_degree add)));
          merged = (if (isEmpty (scientific_degree base) \<or> baseDeg = no_degree)
                       \<and> addDeg \<noteq> [] \<and> addDeg \<noteq> no_degree
                    then merged\<lparr>scientific_degree := scientific_degree add\<rparr> else merged);
          merged = (if (isEmpty (category base) \<or> \<not> looksLikeCategory (category base))
                       \<and> looksLikeCategory (category add)
                    then merged\<lparr>category := category add\<rparr> else merged);
          merged = merged\<lparr>info := Str (merged_info base add)\<rparr>;
          materialized = merged_type_names base add
      in if materialized \<noteq> []
         then merged\<lparr>types := Some (map (\<lambda>(i, n). \<lparr>type_id = int i, type_name = Str n\<rparr>)
                                      (enumerate 0 materialized)),
                     type := Str (hd materialized)\<rparr>
         else merged)"

text \<open>One round of the loop over \<open>extra\<close>.\<close>

definition merge_step :: "(ustring \<times> doctor) list \<Rightarrow> doctor \<Rightarrow> (ustring \<times> doctor) list" where
  "merge_step byName add =
     (let key = makeNameKey add
      in case Map_get byName key of
           Some existing \<Rightarrow> Map_set key (mergeOne existing add) byName
         | None \<Rightarrow> Map_set key add byName)"

definition mergeDoctors :: "doctor list \<Rightarrow> doctor list \<Rightarrow> doctor list" where
  "mergeDoctors primary extra =
     (let byName = foldl (\<lambda>m d. Map_set (makeNameKey d) d m) [] primary
      in Map_values (foldl merge_step byName extra))"

subsection \<open>The merge key and the merged record as the specification words them\<close>

text \<open>
  The glossary's merge key: the name parts concatenated, lower-cased, with yo folded
  to ie.
\<close>

definition spec_merge_key :: "doctor \<Rightarrow> ustring" where
  "spec_merge_key d =
     replace_yo (toLowerCase (or_empty (name d) @ or_empty (name1 d) @ or_empty (name2 d)))"












subsection \<open>Sample records\<close>

text \<open>A record with no field filled in.\<close>

definition blank_doctor :: doctor where
  "blank_doctor =
     \<lparr>doc_id = 0, name = Undefined, name1 = Undefined, name2 = Undefined, type = Undefined,
      info = Undefined, category = Undefined, scientific_degree = Undefined, photo = Null,
      types = None,
      other = \<lparr>code = Undefined, max_time = Undefined, phone = Undefined, snils = Undefined,
        zone_id = 0, zone = Undefined, branch_id = 0, branch = Undefined, category_id = 0,
        scientific_degree_id = 0, user_id = 0, address = Undefined, building_name = Undefined,
        building_web_name = Undefined, primary_type_id = 0\<rparr>\<rparr>"

text \<open>
  The surname Ivanov (U+0418 U+0432 U+0430 U+043D U+043E U+0432) followed by a space,
  as a primary record, and without the space, as an extra record with a photo.
\<close>

definition doc_padded :: doctor where
  "doc_padded = blank_doctor\<lparr>doc_id := 1, name := Str [0x418, 0x432, 0x430, 0x43D, 0x43E, 0x432, 0x20]\<rparr>"

definition doc_plain :: doctor where
  "doc_plain = blank_doctor\<lparr>doc_id := 2, name := Str [0x418, 0x432, 0x430, 0x43D, 0x43E, 0x432],
     photo := Str [0x2F, 0x61, 0x2E, 0x6A, 0x70, 0x67]\<rparr>"

text \<open>Name parts \<open>ab\<close>, \<open>c\<close> and name parts \<open>a\<close>, \<open>bc\<close>.\<close>

definition doc_ab_c :: doctor where
  "doc_ab_c = blank_doctor\<lparr>doc_id := 3, name := Str [0x61, 0x62], name1 := Str [0x63]\<rparr>"

definition doc_a_bc :: doctor where
  "doc_a_bc = blank_doctor\<lparr>doc_id := 4, name := Str [0x61], name1 := Str [0x62, 0x63]\<rparr>"




subsection \<open>The earlier copy of the module\<close>

text \<open>
  The repository holds a second, earlier copy of the module (\<open>src/unnamed/part_002\<close>),
  without the blacklist and with a shorter \<open>mergeDoctors\<close>: its key is made of the
  three name parts and the type, lower-cased only, and an extra record is added when its
  key is new and dropped otherwise.
\<close>

definition makeKey :: "doctor \<Rightarrow> ustring" where
  "makeKey d =
     toLowerCase (or_empty (name d)) @ [0x7C] @ toLowerCase (or_empty (name1 d)) @ [0x7C] @
     toLowerCase (or_empty (name2 d)) @ [0x7C] @ toLowerCase (or_empty (type d))"

definition mergeDoctors_part_002 :: "doctor list \<Rightarrow> doctor list \<Rightarrow> doctor list" where
  "mergeDoctors_part_002 primary extra =
     (let byKey = foldl (\<lambda>m d. Map_set (makeKey d) d m) [] primary
      in Map_values
           (foldl (\<lambda>m d. if \<not> Map_has m (makeKey d) then Map_set (makeKey d) d m else m) byKey extra))"



text \<open>Two records of one person, "Ivanov", as a surgeon and as a therapist.\<close>

definition doc_surgeon :: doctor where
  "doc_surgeon = doc_plain\<lparr>doc_id := 5, type := Str (ascii ''surgeon'')\<rparr>"

definition doc_therapist :: doctor where
  "doc_therapist = doc_plain\<lparr>doc_id := 6, type := Str (ascii ''therapist'')\<rparr>"

section \<open>The service: storage, remote API and fallbacks\<close>

subsection \<open>The storage slot\<close>

text \<open>
  A value read back from JSON where a list of records is expected, classified by the
  tests the code applies to it: \<open>Array.isArray(v)\<close>, \<open>Array.isArray(v.data)\<close> and
  truthiness. \<open>DObjectWithData xs\<close> is an object whose \<open>data\<close> property is the
  array \<open>xs\<close>; \<open>DObject\<close> is any other object.
\<close>

datatype 'a jsdata =
  DUndefined | DNull | DBool bool | DNum int | DStr ustring
  | DArray "'a list" | DObjectWithData "'a list" | DObject

fun data_truthy :: "'a jsdata \<Rightarrow> bool" where
  "data_truthy DUndefined = False"
| "data_truthy DNull = False"
| "data_truthy (DBool b) = b"
| "data_truthy (DNum n) = (n \<noteq> 0)"
| "data_truthy (DStr s) = (s \<noteq> [])"
| "data_truthy (DArray xs) = True"
| "data_truthy (DObjectWithData xs) = True"
| "data_truthy DObject = True"

text \<open>
  The item of \<open>localStorage\<close> under one key, as \<open>readFromStorage\<close> meets it:
  there is no \<open>window\<close>; \<open>getItem\<close> gives \<open>null\<close> or the empty string; the text
  is not JSON; the JSON value is not an object (\<open>null\<close>, a number, a string, an array);
  or it is an object with properties \<open>data\<close> and \<open>timestamp\<close> (\<open>DUndefined\<close> and
  \<open>None\<close> when missing or \<open>null\<close>; the timestamp is a whole number of milliseconds).
\<close>

datatype 'a slot =
  NoWindow | NoItem | Unparsable | NotAnObject | Payload "'a jsdata" "int option"

definition readFromStorage :: "'a slot \<Rightarrow> int \<Rightarrow> int \<Rightarrow> 'a jsdata option" where
  "readFromStorage slot now ttlMs =
     (case slot of
        NoWindow \<Rightarrow> None
      | NoItem \<Rightarrow> None
      | Unparsable \<Rightarrow> None
      | NotAnObject \<Rightarrow> None
      | Payload d ts \<Rightarrow>
          (case ts of
             None \<Rightarrow> None
           | Some t \<Rightarrow>
               if \<not> data_truthy d \<or> t = 0 then None
               else (let isFresh = (now - t < ttlMs) in if isFresh then Some d else Some d)))"

text \<open>
  \<open>writeToStorage\<close>: the slot then holds the data with the current time; nothing
  happens without a \<open>window\<close> or when \<open>setItem\<close> throws.
\<close>

definition writeToStorage :: "bool \<Rightarrow> int \<Rightarrow> 'a jsdata \<Rightarrow> 'a slot \<Rightarrow> 'a slot" where
  "writeToStorage setItem_throws now d slot =
     (case slot of
        NoWindow \<Rightarrow> NoWindow
      | _ \<Rightarrow> if setItem_throws then slot else Payload d (Some now))"

definition DOCTORS_CACHE_TTL_MS :: int where
  "DOCTORS_CACHE_TTL_MS = 24 * 60 * 60 * 1000"

definition DEFAULT_API_PAGE_LIMIT :: int where
  "DEFAULT_API_PAGE_LIMIT = 200"

definition MAX_API_PAGES :: int where
  "MAX_API_PAGES = 50"

text \<open>\<open>import.meta.env.VITE_ARCHIMED_API_URL || 'https://newapi.archimed-soft.ru/api/v5'\<close>\<close>

definition ARCHIMED_API_URL :: "jsstr \<Rightarrow> ustring" where
  "ARCHIMED_API_URL env_url =
     (if truthy env_url then or_empty env_url else ascii ''https://newapi.archimed-soft.ru/api/v5'')"

subsection \<open>The remote API\<close>

text \<open>
  The outcome of \<open>request('/doctors?page=..&limit=..')\<close>: the promise rejects, or it
  resolves with a JSON value of which the code reads \<open>data\<close> (\<open>None\<close> unless it is an
  array), \<open>total\<close> and \<open>limit\<close> (\<open>None\<close> when missing or \<open>null\<close>). The API is a
  function from the page and the limit requested to the outcome.
\<close>

record page_response =
  resp_data :: "doctor list option"
  resp_total :: "int option"
  resp_limit :: "int option"

datatype page_result = RequestFails | Response page_response

type_synonym api = "int \<Rightarrow> int \<Rightarrow> page_result"

text \<open>\<open>Math.ceil(a / b)\<close> for integers and \<open>b > 0\<close>.\<close>

definition ceil_div :: "int \<Rightarrow> int \<Rightarrow> int" where
  "ceil_div a b = - ((- a) div b)"

text \<open>
  The loop \<open>for (page = 2; page <= Math.min(totalPages, MAX_API_PAGES); page++)\<close>.
  The result is the accumulated list and the pages requested so far, in order; a
  rejected request ends the loop through the enclosing \<open>catch\<close>.
\<close>

function fetch_pages ::
  "api \<Rightarrow> int \<Rightarrow> int \<Rightarrow> int \<Rightarrow> doctor list \<Rightarrow> int list \<Rightarrow> doctor list \<times> int list" where
  "fetch_pages api limit totalPages page all requested =
     (if page \<le> min totalPages MAX_API_PAGES then
        (case api page limit of
           RequestFails \<Rightarrow> (all, requested @ [page])
         | Response next \<Rightarrow>
             (case resp_data next of
                Some ds \<Rightarrow>
                  if ds \<noteq> [] then
                    (if int (length ds) < limit then (all @ ds, requested @ [page])
                     else fetch_pages api limit totalPages (page + 1) (all @ ds) (requested @ [page]))
                  else (all, requested @ [page])
              | None \<Rightarrow> (all, requested @ [page])))
      else (all, requested))"
  by pat_completeness auto
termination
  by (relation "measure (\<lambda>(api, limit, totalPages, page, all, requested). nat (MAX_API_PAGES + 1 - page))")
    (auto simp: MAX_API_PAGES_def)

declare fetch_pages.simps [simp del]

text \<open>
  \<open>fetchAllDoctorsFromAPI\<close>, with the list of the pages it requested. It never
  rejects: every error is caught and the records gathered so far are returned.
\<close>

definition fetchAllDoctorsFromAPI_trace :: "ustring \<Rightarrow> api \<Rightarrow> doctor list \<times> int list" where
  "fetchAllDoctorsFromAPI_trace baseUrl api =
     (if baseUrl = [] then ([], [])
      else case api 1 DEFAULT_API_PAGE_LIMIT of
             RequestFails \<Rightarrow> ([], [1])
           | Response first \<Rightarrow>
               (let all = (case resp_data first of Some ds \<Rightarrow> ds | None \<Rightarrow> []);
                    total = (case resp_total first of Some t \<Rightarrow> t
                             | None \<Rightarrow> (case resp_data first of Some ds \<Rightarrow> int (length ds) | None \<Rightarrow> 0));
                    limit = (case resp_limit first of Some l \<Rightarrow> l | None \<Rightarrow> DEFAULT_API_PAGE_LIMIT);
                    totalPages = (if limit > 0
                                  then ceil_div (if total \<noteq> 0 then total else int (length all)) limit
                                  else 1)
                in fetch_pages api limit totalPages 2 all [1]))"

definition fetchAllDoctorsFromAPI :: "ustring \<Rightarrow> api \<Rightarrow> doctor list" where
  "fetchAllDoctorsFromAPI baseUrl api = fst (fetchAllDoctorsFromAPI_trace baseUrl api)"

subsection \<open>The service object and its surroundings\<close>

record service =
  baseUrl :: ustring
  doctorsCache :: "doctor list"
  doctors_slot :: "doctor slot"

text \<open>
  What one call of \<open>getDoctors\<close> meets outside the service object: the clock, whether
  \<open>setItem\<close> throws, the answer of the public gateway (\<open>fetch\<close> or \<open>json()\<close> rejects,
  a status that is not ok, or a JSON body), the API as each of the three calls of
  \<open>fetchAllDoctorsFromAPI\<close> meets it, the bundled \<open>doctors.json\<close> (the import fails
  or gives its default export), the list \<open>loadProdoctorovSnapshot\<close> resolves with
  (empty when the snapshot cannot be loaded), and the bundled \<open>mockDoctors\<close>.
\<close>

datatype gateway_result = GatewayRejects | GatewayNotOk | GatewayOk "doctor jsdata"

datatype import_result = ImportFails | Imported "doctor jsdata"

record surroundings =
  now :: int
  setItem_throws :: bool
  gateway :: gateway_result
  api_enrich :: api
  api_direct :: api
  api_refresh :: api
  doctors_json :: import_result
  proDocs :: "doctor list"
  mockDoctors :: "doctor list"

text \<open>
  \<open>request\<close> calls \<open>window.setTimeout\<close> before it sends anything: without a
  \<open>window\<close> that call throws and the promise rejects, whatever the API would answer.
\<close>

definition request_pages :: "'a slot \<Rightarrow> api \<Rightarrow> api" where
  "request_pages slot api = (case slot of NoWindow \<Rightarrow> (\<lambda>page limit. RequestFails) | _ \<Rightarrow> api)"

text \<open>The statements of the constructor that warm the doctors cache.\<close>

definition new_service :: "jsstr \<Rightarrow> int \<Rightarrow> bool \<Rightarrow> doctor slot \<Rightarrow> service" where
  "new_service env_url now0 throws slot =
     (case readFromStorage slot now0 DOCTORS_CACHE_TTL_MS of
        Some (DArray xs) \<Rightarrow>
          \<lparr>baseUrl = ARCHIMED_API_URL env_url, doctorsCache = applyRemovals xs, doctors_slot = slot\<rparr>
      | Some (DObjectWithData xs) \<Rightarrow>
          \<lparr>baseUrl = ARCHIMED_API_URL env_url, doctorsCache = applyRemovals xs,
           doctors_slot = writeToStorage throws now0 (DArray (applyRemovals xs)) slot\<rparr>
      | _ \<Rightarrow> \<lparr>baseUrl = ARCHIMED_API_URL env_url, doctorsCache = [], doctors_slot = slot\<rparr>)"

text \<open>
  \<open>refreshDoctors\<close>. Until its fetch is over it reads nothing of the service object
  but \<open>baseUrl\<close>, which never changes; \<open>this\<close> is the service object at the moment
  the fetch is over, and the result is the service object the refresh leaves.
\<close>

definition refreshDoctors :: "surroundings \<Rightarrow> service \<Rightarrow> service" where
  "refreshDoctors s this =
     (let allDoctors = fetchAllDoctorsFromAPI (baseUrl this)
                         (request_pages (doctors_slot this) (api_refresh s))
      in if allDoctors \<noteq> []
         then (let cache = applyRemovals allDoctors
               in this\<lparr>doctorsCache := cache,
                       doctors_slot := writeToStorage (setItem_throws s) (now s) (DArray cache)
                                         (doctors_slot this)\<rparr>)
         else this)"

text \<open>Assign the cache and write it to the storage slot.\<close>

definition store :: "surroundings \<Rightarrow> doctor list \<Rightarrow> service \<Rightarrow> service" where
  "store s cache this =
     this\<lparr>doctorsCache := cache,
          doctors_slot := writeToStorage (setItem_throws s) (now s) (DArray cache) (doctors_slot this)\<rparr>"

text \<open>The list taken from a JSON value that is an array or has an array \<open>data\<close>.\<close>

fun list_of_json :: "'a jsdata \<Rightarrow> 'a list" where
  "list_of_json (DArray xs) = xs"
| "list_of_json (DObjectWithData xs) = xs"
| "list_of_json _ = []"

subsection \<open>getDoctors, from one await to the next\<close>

text \<open>
  \<open>getDoctors\<close> is an \<open>async\<close> method: at each \<open>await\<close> other calls on the
  same service object may run. It is modelled in the three parts in which it reads or
  writes the service object: the statements up to the first \<open>await\<close> (lines 155-180),
  those from the first assignment to \<open>doctorsCache\<close> to the next \<open>await\<close> or the
  \<open>return\<close>, and those after \<open>await this.loadProdoctorovSnapshot()\<close>. Between the
  first and the second part the method only waits for the gateway, the API and the
  import of \<open>doctors.json\<close>, whose outcomes are in the surroundings.

  The first part: the list the call returns from the in-memory cache or from the storage
  slot, with the service object it leaves (it has then started \<open>refreshDoctors\<close>), or
  \<open>None\<close> when neither holds a list and the call goes on to fetch one.
\<close>

definition getDoctors_from_cache :: "surroundings \<Rightarrow> service \<Rightarrow> (doctor list \<times> service) option" where
  "getDoctors_from_cache s this =
     (if doctorsCache this \<noteq> [] then Some (doctorsCache this, this)
      else
        (case readFromStorage (doctors_slot this) (now s) DOCTORS_CACHE_TTL_MS of
           Some (DArray (x # xs)) \<Rightarrow>
             (let cache = applyRemovals (x # xs)
              in Some (cache, this\<lparr>doctorsCache := cache\<rparr>))
         | Some (DObjectWithData xs) \<Rightarrow>
             (let cache = applyRemovals xs
              in Some (cache, store s cache this))
         | _ \<Rightarrow> None))"

text \<open>
  The last statements of the three branches (lines 225-227, 247-250, 260-263): the cache
  is filtered, written to the slot and returned.
\<close>

definition filter_and_store :: "surroundings \<Rightarrow> service \<Rightarrow> doctor list \<times> service" where
  "filter_and_store s this =
     (let cache = applyRemovals (doctorsCache this) in (cache, store s cache this))"

text \<open>
  The third part, the statements after \<open>await this.loadProdoctorovSnapshot()\<close> (lines
  220-227, 242-250, 256-263): a snapshot that is not empty is merged into the cache as
  the cache is by then, and the branch ends as above.
\<close>

definition after_snapshot :: "surroundings \<Rightarrow> service \<Rightarrow> doctor list \<times> service" where
  "after_snapshot s this =
     filter_and_store s
       (if proDocs s \<noteq> [] then this\<lparr>doctorsCache := mergeDoctors (doctorsCache this) (proDocs s)\<rparr>
        else this)"

text \<open>
  Where the second part ends: the call has returned a list, or it has assigned a list to
  \<open>doctorsCache\<close> and waits for \<open>loadProdoctorovSnapshot\<close>; each time with the
  service object it leaves.
\<close>

datatype progress = Resolved "doctor list" service | AwaitingSnapshot service

text \<open>Step 4 of \<open>getDoctors\<close>: the mock data (lines 254-255).\<close>

definition from_mock :: "surroundings \<Rightarrow> service \<Rightarrow> progress" where
  "from_mock s this = AwaitingSnapshot (this\<lparr>doctorsCache := mockDoctors s\<rparr>)"

text \<open>Step 3: the \<open>catch\<close> branch, the bundled \<open>doctors.json\<close> (lines 232-241).\<close>

definition from_local_file :: "surroundings \<Rightarrow> service \<Rightarrow> progress" where
  "from_local_file s this =
     (case doctors_json s of
        ImportFails \<Rightarrow> from_mock s this
      | Imported raw \<Rightarrow>
          (let this = this\<lparr>doctorsCache := list_of_json raw\<rparr>
           in if length (doctorsCache this) < 10 then AwaitingSnapshot this
              else (case filter_and_store s this of (cache, this) \<Rightarrow> Resolved cache this)))"

text \<open>Step 2: the Archimed API directly (lines 213-219).\<close>

definition from_api :: "surroundings \<Rightarrow> service \<Rightarrow> progress" where
  "from_api s this =
     (let allDoctors = fetchAllDoctorsFromAPI (baseUrl this)
                         (request_pages (doctors_slot this) (api_direct s));
          this = this\<lparr>doctorsCache := allDoctors\<rparr>
      in if length (doctorsCache this) < 10 then AwaitingSnapshot this
         else (case filter_and_store s this of (cache, this) \<Rightarrow> Resolved cache this))"

text \<open>
  The second part (lines 182-219, 228-241, 251-255). \<open>this\<close> is the service object at
  the moment the fetches are over. Without a \<open>window\<close> the first statement of the
  \<open>try\<close> block throws, and the \<open>catch\<close> branch runs.
\<close>

definition getDoctors_fetch :: "surroundings \<Rightarrow> service \<Rightarrow> progress" where
  "getDoctors_fetch s this =
     (case doctors_slot this of
        NoWindow \<Rightarrow> from_local_file s this
      | _ \<Rightarrow>
          (case gateway s of
             GatewayRejects \<Rightarrow> from_local_file s this
           | GatewayNotOk \<Rightarrow> from_api s this
           | GatewayOk siteJson \<Rightarrow>
               (let bestData = list_of_json siteJson;
                    apiAll = fetchAllDoctorsFromAPI (baseUrl this)
                               (request_pages (doctors_slot this) (api_enrich s));
                    bestData = (if length apiAll > length bestData then apiAll else bestData)
                in if bestData \<noteq> []
                   then (let cache = applyRemovals bestData in Resolved cache (store s cache this))
                   else from_api s this)))"

text \<open>
  A call of \<open>getDoctors\<close> during which nothing else touches the service object: the
  list the promise resolves with and the service object once the call and the refresh
  it started are over. The method has no path on which it rejects.
\<close>

definition getDoctors :: "surroundings \<Rightarrow> service \<Rightarrow> doctor list \<times> service" where
  "getDoctors s this =
     (case getDoctors_from_cache s this of
        Some (cache, this) \<Rightarrow> (cache, refreshDoctors s this)
      | None \<Rightarrow>
          (case getDoctors_fetch s this of
             Resolved cache this \<Rightarrow> (cache, this)
           | AwaitingSnapshot this \<Rightarrow> after_snapshot s this))"

text \<open>
  \<open>getDoctor\<close>, given the settled outcome of \<open>request('/doctors/' + id)\<close>: an error
  passes through, a blacklisted record becomes the error of a missing record.
\<close>

datatype error = Error ustring

definition getDoctor :: "error + doctor \<Rightarrow> error + doctor" where
  "getDoctor requested =
     (case requested of
        Inl e \<Rightarrow> Inl e
      | Inr doc \<Rightarrow>
          if isBlacklisted doc then Inl (Error (ascii ''Archimed API error: 404 - Not found''))
          else Inr doc)"

subsection \<open>Calls in turn and the blacklist as the specification words it\<close>

text \<open>
  The service objects that can exist while no call of \<open>getDoctors\<close> is in its second
  or third part: the one the constructor builds, the one left by a call that nothing
  overlapped, and the one left by a refresh that ends later; meanwhile the storage slot
  may be rewritten from outside (another tab, the user).
\<close>

inductive between_calls :: "service \<Rightarrow> bool" where
  constructed: "between_calls (new_service env_url now0 throws slot)"
| called: "between_calls this \<Longrightarrow> between_calls (snd (getDoctors s this))"
| refreshed: "between_calls this \<Longrightarrow> between_calls (refreshDoctors s this)"
| slot_changed: "between_calls this \<Longrightarrow> between_calls (this\<lparr>doctors_slot := slot\<rparr>)"

text \<open>
  The normalized full name of the specification: the name parts joined, lower-cased,
  yo folded to ie.
\<close>

definition spec_full_name :: "doctor \<Rightarrow> ustring" where
  "spec_full_name d = replace_yo (toLowerCase (joined_name d))"

definition spec_blacklisted :: "doctor \<Rightarrow> bool" where
  "spec_blacklisted d \<longleftrightarrow> spec_full_name d \<in> set NAME_BLACKLIST"

text \<open>The records of one page, and the pages after which the loop stops.\<close>

definition page_records :: "api \<Rightarrow> int \<Rightarrow> int \<Rightarrow> doctor list" where
  "page_records api limit page =
     (case api page limit of
        RequestFails \<Rightarrow> []
      | Response r \<Rightarrow> (case resp_data r of Some ds \<Rightarrow> ds | None \<Rightarrow> []))"

definition request_fails :: "api \<Rightarrow> int \<Rightarrow> int \<Rightarrow> bool" where
  "request_fails api limit page \<longleftrightarrow> api page limit = RequestFails"

definition empty_or_short :: "api \<Rightarrow> int \<Rightarrow> int \<Rightarrow> bool" where
  "empty_or_short api limit page \<longleftrightarrow>
     page_records api limit page = [] \<or> int (length (page_records api limit page)) < limit"

text \<open>The limit that the answer to the first request sets for the later requests.\<close>

definition later_limit :: "api \<Rightarrow> int" where
  "later_limit api =
     (case api 1 DEFAULT_API_PAGE_LIMIT of
        RequestFails \<Rightarrow> DEFAULT_API_PAGE_LIMIT
      | Response first \<Rightarrow> (case resp_limit first of Some l \<Rightarrow> l | None \<Rightarrow> DEFAULT_API_PAGE_LIMIT))"

text \<open>The limit with which a page is requested.\<close>

definition limit_of_page :: "api \<Rightarrow> int \<Rightarrow> int" where
  "limit_of_page api page = (if page = 1 then DEFAULT_API_PAGE_LIMIT else later_limit api)"

subsection \<open>Sample surroundings\<close>

text \<open>Nothing outside answers: every request and every import fails.\<close>

definition api_down :: api where
  "api_down page limit = RequestFails"

definition nothing_answers :: surroundings where
  "nothing_answers =
     \<lparr>now = 1762000000000, setItem_throws = False, gateway = GatewayRejects,
      api_enrich = api_down, api_direct = api_down, api_refresh = api_down,
      doctors_json = ImportFails, proDocs = [], mockDoctors = []\<rparr>"

text \<open>A fresh service object: nothing cached, nothing stored.\<close>

definition fresh_service :: service where
  "fresh_service = \<lparr>baseUrl = ARCHIMED_API_URL Undefined, doctorsCache = [], doctors_slot = NoItem\<rparr>"

text \<open>
  The gateway answers with an error status, the API is down, and \<open>doctors.json\<close>
  holds one record.
\<close>

definition gateway_error_api_down :: surroundings where
  "gateway_error_api_down =
     nothing_answers\<lparr>gateway := GatewayNotOk, doctors_json := Imported (DArray [doc_plain])\<rparr>"

text \<open>
  An API whose first page holds one record, fewer than the limit, while it reports 400
  records in pages of 200, and whose second page holds one record.
\<close>

definition api_short_first_page :: api where
  "api_short_first_page page limit =
     (if page = 1
      then Response \<lparr>resp_data = Some [doc_padded], resp_total = Some 400, resp_limit = Some 200\<rparr>
      else if page = 2
      then Response \<lparr>resp_data = Some [doc_plain], resp_total = Some 400, resp_limit = Some 200\<rparr>
      else RequestFails)"

text \<open>
  An API that reports two records in pages of one, answers the first request with the
  first of them and fails the second.
\<close>

definition api_fails_on_page_2 :: api where
  "api_fails_on_page_2 page limit =
     (if page = 1 then Response \<lparr>resp_data = Some [doc_plain], resp_total = Some 2, resp_limit = Some 1\<rparr>
      else RequestFails)"

text \<open>
  A service object that has cached and stored these two records, and a refresh that meets
  that API.
\<close>

definition cached_service :: service where
  "cached_service =
     \<lparr>baseUrl = ARCHIMED_API_URL Undefined, doctorsCache = [doc_plain, doc_ab_c],
      doctors_slot = Payload (DArray [doc_plain, doc_ab_c]) (Some 1761000000000)\<rparr>"

definition refresh_fails_on_page_2 :: surroundings where
  "refresh_fails_on_page_2 = nothing_answers\<lparr>api_refresh := api_fails_on_page_2\<rparr>"

text \<open>
  A record with the three name parts of the blacklist entry, capitalised
  (U+0425.. , U+0410.. , U+0422..).
\<close>

definition doc_blacklisted :: doctor where
  "doc_blacklisted =
     blank_doctor\<lparr>doc_id := 7,
       name := Str [0x425, 0x43E, 0x440, 0x431, 0x430, 0x430],
       name1 := Str [0x410, 0x43D, 0x436, 0x435, 0x43B, 0x430],
       name2 := Str [0x422, 0x430, 0x440, 0x430, 0x441, 0x43E, 0x432, 0x43D, 0x430]\<rparr>"

text \<open>
  An API that lists that record and another one, and surroundings in which the gateway
  answers with an error status and the API with that list.
\<close>

definition api_lists_blacklisted :: api where
  "api_lists_blacklisted page limit =
     (if page = 1
      then Response \<lparr>resp_data = Some [doc_blacklisted, doc_plain], resp_total = Some 2,
                     resp_limit = Some 200\<rparr>
      else RequestFails)"

definition gateway_error_api_lists_blacklisted :: surroundings where
  "gateway_error_api_lists_blacklisted =
     nothing_answers\<lparr>gateway := GatewayNotOk, api_direct := api_lists_blacklisted\<rparr>"

text \<open>The fresh service object with that list assigned to its cache.\<close>

definition service_awaiting_snapshot :: service where
  "service_awaiting_snapshot = fresh_service\<lparr>doctorsCache := [doc_blacklisted, doc_plain]\<rparr>"

section \<open>Linking services and doctors\<close>










section \<open>The script that reads the image directory\<close>

text \<open>
  An entry of \<open>prodoctorov.json\<close>: the three properties the script reads and writes
  (\<open>entry_photo\<close> is the property \<open>photo\<close>). Its other properties are never touched.
\<close>

record snapshot_entry =
  fullName :: jsstr
  specialty :: jsstr
  entry_photo :: jsstr

text \<open>\<open>normalizeName\<close> of the script.\<close>

definition normalizeName :: "jsstr \<Rightarrow> ustring" where
  "normalizeName s = trim (replace_runs isWhiteSpace (replace_yo (toLowerCase (or_empty s))))"

text \<open>\<open>s.lastIndexOf(pat)\<close> for a non-empty \<open>pat\<close>: \<open>-1\<close> when there is no occurrence.\<close>

definition lastIndexOf :: "ustring \<Rightarrow> ustring \<Rightarrow> int" where
  "lastIndexOf s pat =
     (let hits = filter (\<lambda>i. take (length pat) (drop i s) = pat) [0..<Suc (length s - length pat)]
      in if length pat > length s \<or> hits = [] then - 1 else int (last hits))"

text \<open>
  \<open>basename.replace(/\.[^.]+$/i, "")\<close>: the text from the last dot on is removed when
  something follows that dot.
\<close>

definition strip_extension :: "ustring \<Rightarrow> ustring" where
  "strip_extension s =
     (let ext = takeWhile (\<lambda>c. c \<noteq> 0x2E) (rev s)
      in if ext \<noteq> [] \<and> length ext < length s then take (length s - length ext - 1) s else s)"

definition hyphen_or_space :: "nat \<Rightarrow> bool" where
  "hyphen_or_space c \<longleftrightarrow> c = 0x2D \<or> isWhiteSpace c"

definition splitNameAndSpecialty :: "ustring \<Rightarrow> ustring \<times> ustring" where
  "splitNameAndSpecialty basename =
     (let nameOnly = strip_extension basename;
          idx1 = lastIndexOf nameOnly [0x20, 0x2D, 0x20];
          idx2 = lastIndexOf nameOnly [0x2D, 0x20];
          idx3 = lastIndexOf nameOnly [0x20, 0x2D];
          candidates = filter (\<lambda>i. i \<noteq> - 1) [idx1, idx2, idx3];
          splitIdx = (if candidates \<noteq> [] then Max (set candidates) else - 1)
      in if splitIdx = - 1 then (trim nameOnly, [])
         else
           (let fullName = rev (dropWhile hyphen_or_space (rev (trim (take (nat splitIdx) nameOnly))));
                skip = (if nat splitIdx + 1 < length nameOnly \<and> nameOnly ! (nat splitIdx + 1) = 0x20
                        then 2 else 1);
                specialty = dropWhile hyphen_or_space (trim (drop (nat splitIdx + skip) nameOnly))
            in (fullName, specialty)))"

text \<open>\<open>/\.(jpe?g|png|webp)$/i.test(name)\<close>\<close>

definition is_image_name :: "ustring \<Rightarrow> bool" where
  "is_image_name n \<longleftrightarrow>
     regex_test_end (map Ch (ascii ''.jpg'')) n \<or> regex_test_end (map Ch (ascii ''.jpeg'')) n \<or>
     regex_test_end (map Ch (ascii ''.png'')) n \<or> regex_test_end (map Ch (ascii ''.webp'')) n"

text \<open>\<open>`/img_doctors/${filename}`\<close>\<close>

definition photoPath :: "ustring \<Rightarrow> ustring" where
  "photoPath filename = ascii ''/img_doctors/'' @ filename"

text \<open>\<open>!item.photo || /no-avatar\.svg$/i.test(item.photo)\<close>\<close>

definition hasNoPhoto :: "snapshot_entry \<Rightarrow> bool" where
  "hasNoPhoto item \<longleftrightarrow>
     \<not> truthy (entry_photo item) \<or>
     regex_test_end (map Ch (ascii ''no-avatar.svg'')) (or_empty (entry_photo item))"

text \<open>The default specialty "Vrach" (doctor), U+0412 U+0440 U+0430 U+0447.\<close>

definition default_specialty :: ustring where
  "default_specialty = [0x412, 0x440, 0x430, 0x447]"

text \<open>
  The state of the loop of \<open>main\<close>. The objects of \<open>existing\<close> are shared between the
  array \<open>results\<close> and the map \<open>byName\<close>, and the loop mutates them through the map:
  the map therefore holds, for a key, the position in \<open>results\<close> of the object.
\<close>

record loop_state =
  results :: "snapshot_entry list"
  byName :: "(ustring \<times> nat) list"
  added :: nat
  updatedPhotos :: nat

text \<open>\<open>new Map(existing.map((i) => [normalizeName(i.fullName), i]))\<close> and \<open>[...existing]\<close>\<close>

definition initial_state :: "snapshot_entry list \<Rightarrow> loop_state" where
  "initial_state existing =
     \<lparr>results = existing,
      byName = foldl (\<lambda>m (i, e). Map_set (normalizeName (fullName e)) i m) [] (enumerate 0 existing),
      added = 0, updatedPhotos = 0\<rparr>"

text \<open>The entry pushed for a name that is not in the map.\<close>

definition new_entry :: "ustring \<Rightarrow> ustring \<Rightarrow> ustring \<Rightarrow> snapshot_entry" where
  "new_entry filename fullName' specialty' =
     \<lparr>fullName = Str fullName',
      specialty = Str (if specialty' \<noteq> [] then specialty' else default_specialty),
      entry_photo = Str (photoPath filename)\<rparr>"

text \<open>The \<open>else\<close> branch: what happens to the entry found in the map.\<close>

definition update_item :: "snapshot_entry \<Rightarrow> ustring \<Rightarrow> ustring \<Rightarrow> snapshot_entry" where
  "update_item item filename specialty' =
     (let item1 = (if hasNoPhoto item then item\<lparr>entry_photo := Str (photoPath filename)\<rparr> else item)
      in if (\<not> truthy (specialty item1) \<or> trim (ToString (specialty item1)) = []) \<and> specialty' \<noteq> []
         then item1\<lparr>specialty := Str specialty'\<rparr> else item1)"

text \<open>The body of \<open>for (const filename of entries)\<close>.\<close>

definition process_file :: "loop_state \<Rightarrow> ustring \<Rightarrow> loop_state" where
  "process_file st filename =
     (let (fullName', specialty') = splitNameAndSpecialty filename
      in if fullName' = [] then st
         else
           (let key = normalizeName (Str fullName')
            in case Map_get (byName st) key of
                 None \<Rightarrow>
                   st\<lparr>results := results st @ [new_entry filename fullName' specialty'],
                      byName := Map_set key (length (results st)) (byName st),
                      added := added st + 1\<rparr>
               | Some idx \<Rightarrow>
                   st\<lparr>results := (results st)[idx := update_item (results st ! idx) filename specialty'],
                      updatedPhotos := (if hasNoPhoto (results st ! idx)
                                        then updatedPhotos st + 1 else updatedPhotos st)\<rparr>))"

text \<open>
  \<open>main\<close> up to the final sort: the image names among the files of the directory are
  processed in order. The sort by \<open>localeCompare\<close> that follows only reorders
  \<open>results\<close>.
\<close>

definition main_loop :: "snapshot_entry list \<Rightarrow> ustring list \<Rightarrow> loop_state" where
  "main_loop existing files = foldl process_file (initial_state existing) (filter is_image_name files)"

text \<open>The keys of the snapshot.\<close>

definition snapshot_keys :: "snapshot_entry list \<Rightarrow> ustring set" where
  "snapshot_keys existing = (\<lambda>e. normalizeName (fullName e)) ` set existing"

text \<open>
  What holds of the loop state after any number of files, with respect to the snapshot
  read at the start and the set of file names processed. In particular every position
  held by the map is a position of \<open>results\<close>.
\<close>

definition loop_inv :: "snapshot_entry list \<Rightarrow> ustring set \<Rightarrow> loop_state \<Rightarrow> bool" where
  "loop_inv existing names st \<longleftrightarrow>
     length existing \<le> length (results st) \<and>
     snapshot_keys existing \<subseteq> fst ` set (byName st) \<and>
     snd ` set (byName st) \<subseteq> {..<length (results st)} \<and>
     (\<forall>i < length existing.
        fullName (results st ! i) = fullName (existing ! i) \<and>
        (\<not> hasNoPhoto (existing ! i) \<longrightarrow> entry_photo (results st ! i) = entry_photo (existing ! i)) \<and>
        (entry_photo (results st ! i) \<noteq> entry_photo (existing ! i) \<longrightarrow>
           hasNoPhoto (existing ! i) \<and>
           (\<exists>f \<in> names. entry_photo (results st ! i) = Str (photoPath f)))) \<and>
     (\<forall>i. length existing \<le> i \<and> i < length (results st) \<longrightarrow>
        normalizeName (fullName (results st ! i)) \<notin> snapshot_keys existing \<and>
        (\<exists>f \<in> names. fullName (results st ! i) = Str (fst (splitNameAndSpecialty f))))"

text \<open>
  A snapshot of two entries: one with a real photo, one with the placeholder; and a
  directory with an image for each of them, an image of a third person, and a text file.
  The names are Latin for brevity: "Ivanov Ivan", "Petrov Petr", "Sidorov Sidor".
\<close>

definition sample_snapshot :: "snapshot_entry list" where
  "sample_snapshot =
     [\<lparr>fullName = Str (ascii ''Ivanov Ivan''), specialty = Str (ascii ''Surgeon''),
       entry_photo = Str (ascii ''https://example.org/ivanov.jpg'')\<rparr>,
      \<lparr>fullName = Str (ascii ''Petrov Petr''), specialty = Str [],
       entry_photo = Str (ascii ''/static/No-Avatar.svg'')\<rparr>]"

definition sample_files :: "ustring list" where
  "sample_files =
     [ascii ''Ivanov Ivan - Surgeon.jpg'', ascii ''petrov  petr - Therapist.PNG'',
      ascii ''Sidorov Sidor - Dentist.webp'', ascii ''notes.txt'']"

section \<open>Properties of mergeDoctors\<close>

subsection \<open>The insertion-ordered map\<close>

lemma Map_set_keys:
  "map fst (Map_set k v m) = (if k \<in> fst ` set m then map fst m else map fst m @ [k])"
  by (induction m) (force split: if_splits)+

lemma Map_set_key_set: "fst ` set (Map_set k v m) = insert k (fst ` set m)"
  using arg_cong [OF Map_set_keys [of k v m], of set] by (auto split: if_splits)


lemma set_Map_set_subset: "set (Map_set k v m) \<subseteq> insert (k, v) (set m)"
  by (induction m) (auto split: if_splits)

lemma Map_get_None_iff: "Map_get m k = None \<longleftrightarrow> k \<notin> fst ` set m"
  by (simp add: Map_get_def map_of_eq_None_iff)


subsection \<open>Normalizing twice\<close>












subsection \<open>What mergeOne changes\<close>


lemma photo_mergeOne:
  "photo (mergeOne base add) =
     (if truthy (photo base) then photo base
      else if truthy (photo add) then photo add else photo base)"
  by (auto simp add: mergeOne_def Let_def)






















subsection \<open>The keys of byName\<close>




lemma keys_merge_step:
  "map fst (merge_step m add) =
     (if makeNameKey add \<in> fst ` set m then map fst m else map fst m @ [makeNameKey add])"
  by (simp add: merge_step_def Let_def Map_set_keys split: option.splits)



lemma keys_primary_set:
  "fst ` set (foldl (\<lambda>m d. Map_set (makeNameKey d) d m) m primary)
     = fst ` set m \<union> makeNameKey ` set primary"
proof (induction primary arbitrary: m)
  case Nil
  then show ?case by simp
next
  case (Cons d ds)
  show ?case using Cons [of "Map_set (makeNameKey d) d m"] by (auto simp: Map_set_key_set)
qed

lemma keys_merge_step_set:
  "fst ` set (merge_step m d) = insert (makeNameKey d) (fst ` set m)"
  using arg_cong [OF keys_merge_step [of m d], of set] by (auto split: if_splits)

lemma keys_extra_set:
  "fst ` set (foldl merge_step m extra) = fst ` set m \<union> makeNameKey ` set extra"
proof (induction extra arbitrary: m)
  case Nil
  then show ?case by simp
next
  case (Cons d ds)
  show ?case using Cons [of "merge_step m d"] by (auto simp: keys_merge_step_set)
qed






lemma mergeDoctors_snoc_length:
  "length (mergeDoctors primary (extra @ [e])) =
     (if \<exists>d \<in> set primary \<union> set extra. makeNameKey d = makeNameKey e
      then length (mergeDoctors primary extra) else Suc (length (mergeDoctors primary extra)))"
proof -
  let ?M = "foldl merge_step (foldl (\<lambda>m d. Map_set (makeNameKey d) d m) [] primary) extra"
  have ks: "fst ` set ?M = makeNameKey ` (set primary \<union> set extra)"
    by (simp add: keys_extra_set keys_primary_set image_Un)
  have "length (mergeDoctors primary (extra @ [e])) = length (map fst (merge_step ?M e))"
    by (simp add: mergeDoctors_def Map_values_def)
  also have "\<dots> = (if makeNameKey e \<in> fst ` set ?M then length ?M else Suc (length ?M))"
    by (simp add: keys_merge_step)
  finally have "length (mergeDoctors primary (extra @ [e])) =
      (if makeNameKey e \<in> makeNameKey ` (set primary \<union> set extra)
       then length ?M else Suc (length ?M))"
    unfolding ks .
  moreover have "length (mergeDoctors primary extra) = length ?M"
    by (simp add: mergeDoctors_def Map_values_def)
  moreover have "makeNameKey e \<in> makeNameKey ` (set primary \<union> set extra) \<longleftrightarrow>
      (\<exists>d \<in> set primary \<union> set extra. makeNameKey d = makeNameKey e)"
    by (metis (no_types, lifting) image_iff)
  ultimately show ?thesis by presburger
qed

lemma mergeDoctors_pair:
  "mergeDoctors [p] [e] = (if makeNameKey p = makeNameKey e then [mergeOne p e] else [p, e])"
  by (simp add: mergeDoctors_def merge_step_def Map_get_def Map_values_def Let_def)

subsection \<open>The record returned for a key\<close>










subsection \<open>The merged record, field by field\<close>















subsection \<open>The sample records\<close>

lemma key_doc_padded: "makeNameKey doc_padded = [0x438, 0x432, 0x430, 0x43D, 0x43E, 0x432, 0x7C, 0x7C]"
  by (simp add: makeNameKey_def normalize_str_def trim_def replace_yo_def toLowerCase_def
      toLowerCase_unit_def isWhiteSpace_def doc_padded_def blank_doctor_def)

lemma key_doc_plain: "makeNameKey doc_plain = [0x438, 0x432, 0x430, 0x43D, 0x43E, 0x432, 0x7C, 0x7C]"
  by (simp add: makeNameKey_def normalize_str_def trim_def replace_yo_def toLowerCase_def
      toLowerCase_unit_def isWhiteSpace_def doc_plain_def blank_doctor_def)

lemma key_doc_ab_c: "makeNameKey doc_ab_c = [0x61, 0x62, 0x7C, 0x63, 0x7C]"
  by (simp add: makeNameKey_def normalize_str_def trim_def replace_yo_def toLowerCase_def
      toLowerCase_unit_def isWhiteSpace_def doc_ab_c_def blank_doctor_def)

lemma key_doc_a_bc: "makeNameKey doc_a_bc = [0x61, 0x7C, 0x62, 0x63, 0x7C]"
  by (simp add: makeNameKey_def normalize_str_def trim_def replace_yo_def toLowerCase_def
      toLowerCase_unit_def isWhiteSpace_def doc_a_bc_def blank_doctor_def)

lemma spec_key_doc_padded:
  "spec_merge_key doc_padded = [0x438, 0x432, 0x430, 0x43D, 0x43E, 0x432, 0x20]"
  by (simp add: spec_merge_key_def replace_yo_def toLowerCase_def toLowerCase_unit_def
      doc_padded_def blank_doctor_def)

lemma spec_key_doc_plain:
  "spec_merge_key doc_plain = [0x438, 0x432, 0x430, 0x43D, 0x43E, 0x432]"
  by (simp add: spec_merge_key_def replace_yo_def toLowerCase_def toLowerCase_unit_def
      doc_plain_def blank_doctor_def)

lemma spec_key_doc_ab_c: "spec_merge_key doc_ab_c = [0x61, 0x62, 0x63]"
  by (simp add: spec_merge_key_def replace_yo_def toLowerCase_def toLowerCase_unit_def
      doc_ab_c_def blank_doctor_def)

lemma spec_key_doc_a_bc: "spec_merge_key doc_a_bc = [0x61, 0x62, 0x63]"
  by (simp add: spec_merge_key_def replace_yo_def toLowerCase_def toLowerCase_unit_def
      doc_a_bc_def blank_doctor_def)













subsection \<open>The earlier copy\<close>

lemma mergeDoctors_part_002_pair:
  "mergeDoctors_part_002 [p] [e] = (if makeKey p = makeKey e then [p] else [p, e])"
  by (simp add: mergeDoctors_part_002_def Map_has_def Map_values_def)

lemma makeKey_samples: "makeKey doc_surgeon \<noteq> makeKey doc_therapist"
  by (simp add: makeKey_def doc_surgeon_def doc_therapist_def doc_plain_def blank_doctor_def
      toLowerCase_def toLowerCase_unit_def ascii_def)

lemma makeNameKey_samples: "makeNameKey doc_surgeon = makeNameKey doc_therapist"
  by (simp add: makeNameKey_def doc_surgeon_def doc_therapist_def)

text \<open>
  The earlier copy keeps two records of one name apart when their types differ, and never
  merges fields; the current module merges them.
\<close>

lemma mergeDoctors_part_002_sample:
  "mergeDoctors_part_002 [doc_surgeon] [doc_therapist] = [doc_surgeon, doc_therapist] \<and>
   mergeDoctors [doc_surgeon] [doc_therapist] = [mergeOne doc_surgeon doc_therapist]"
  by (simp add: mergeDoctors_part_002_pair mergeDoctors_pair makeKey_samples makeNameKey_samples)

subsection \<open>The earlier copy: one record per key, extra records never merged\<close>
















subsection \<open>The claims about mergeDoctors\<close>

text \<open>
  C1, as worded: two records are matched exactly when their merge keys are equal, the
  merge key being the lower-cased, yo-folded concatenation of the name parts. This fails
  in both directions. A primary record named "Ivanov " (with a trailing space) and an
  extra record named "Ivanov" are merged into one record although the lower-cased,
  yo-folded concatenations differ; the records with name parts \<open>ab\<close>, \<open>c\<close> and
  \<open>a\<close>, \<open>bc\<close> have the same concatenation and are kept apart.
\<close>

theorem merge_key_counterexample:
  "\<not> (mergeDoctors [doc_padded] [doc_plain] = [mergeOne doc_padded doc_plain]
        \<longleftrightarrow> spec_merge_key doc_padded = spec_merge_key doc_plain) \<and>
   \<not> (mergeDoctors [doc_ab_c] [doc_a_bc] = [mergeOne doc_ab_c doc_a_bc]
        \<longleftrightarrow> spec_merge_key doc_ab_c = spec_merge_key doc_a_bc)"
  by (simp add: mergeDoctors_pair key_doc_padded key_doc_plain key_doc_ab_c key_doc_a_bc
      spec_key_doc_padded spec_key_doc_plain spec_key_doc_ab_c spec_key_doc_a_bc)

text \<open>
  C1, amended: the key that decides the match is \<open>makeNameKey\<close>: the three name parts,
  each lower-cased, yo-folded and trimmed of surrounding white space (a missing part
  counting as empty), joined by \<open>|\<close>. An extra record is merged into the record of a
  primary record exactly when their keys are equal; more generally an extra record adds no
  record to the result exactly when its key is the key of a primary record or of an earlier
  extra record. The key depends on the three name parts and on nothing else.
\<close>

theorem mergeDoctors_matches_by_makeNameKey:
  "mergeDoctors [p] [e] = (if makeNameKey p = makeNameKey e then [mergeOne p e] else [p, e]) \<and>
   length (mergeDoctors primary (extra @ [e])) =
     (if \<exists>d \<in> set primary \<union> set extra. makeNameKey d = makeNameKey e
      then length (mergeDoctors primary extra) else Suc (length (mergeDoctors primary extra))) \<and>
   makeNameKey d =
     trim (replace_yo (toLowerCase (or_empty (name d)))) @ [0x7C] @
     trim (replace_yo (toLowerCase (or_empty (name1 d)))) @ [0x7C] @
     trim (replace_yo (toLowerCase (or_empty (name2 d)))) \<and>
   (name d = name d' \<and> name1 d = name1 d' \<and> name2 d = name2 d' \<longrightarrow> makeNameKey d = makeNameKey d')"
  by (simp add: mergeDoctors_pair mergeDoctors_snoc_length) (simp add: makeNameKey_def normalize_str_def)

theorem mergeDoctors_matches_by_makeNameKey_witness:
  "(\<exists>d \<in> set [doc_padded] \<union> set []. makeNameKey d = makeNameKey doc_plain) \<and>
   length (mergeDoctors [doc_padded] ([] @ [doc_plain])) = length (mergeDoctors [doc_padded] []) \<and>
   name doc_ab_c = name (doc_ab_c\<lparr>photo := Str []\<rparr>) \<and>
   name1 doc_ab_c = name1 (doc_ab_c\<lparr>photo := Str []\<rparr>) \<and>
   name2 doc_ab_c = name2 (doc_ab_c\<lparr>photo := Str []\<rparr>) \<and>
   makeNameKey doc_ab_c = makeNameKey (doc_ab_c\<lparr>photo := Str []\<rparr>)"
proof -
  have ex: "\<exists>d \<in> set [doc_padded] \<union> set []. makeNameKey d = makeNameKey doc_plain"
    by (simp add: key_doc_padded key_doc_plain)
  have names: "name doc_ab_c = name (doc_ab_c\<lparr>photo := Str []\<rparr>) \<and>
      name1 doc_ab_c = name1 (doc_ab_c\<lparr>photo := Str []\<rparr>) \<and>
      name2 doc_ab_c = name2 (doc_ab_c\<lparr>photo := Str []\<rparr>)"
    by simp
  note inst = mergeDoctors_matches_by_makeNameKey
    [where p = doc_padded and e = doc_plain and primary = "[doc_padded]" and extra = "[]"
       and d = doc_ab_c and d' = "doc_ab_c\<lparr>photo := Str []\<rparr>"]
  from inst ex have len: "length (mergeDoctors [doc_padded] ([] @ [doc_plain]))
      = length (mergeDoctors [doc_padded] [])"
    by presburger
  from inst names have "makeNameKey doc_ab_c = makeNameKey (doc_ab_c\<lparr>photo := Str []\<rparr>)"
    by blast
  with ex len names show ?thesis by blast
qed




text \<open>
  C6: when an extra record \<open>add\<close> is merged into a primary record \<open>base\<close> with the same
  merge key, the merged record keeps the photo of \<open>base\<close> whenever that is a non-empty
  string, and its photo is that of \<open>add\<close> instead only when the photo of \<open>base\<close> is
  \<open>null\<close>, \<open>undefined\<close> or the empty string.
\<close>

theorem mergeDoctors_photo:
  "makeNameKey base = makeNameKey add \<Longrightarrow>
     mergeDoctors [base] [add] = [mergeOne base add] \<and>
     photo (mergeOne base add) =
       (if truthy (photo base) then photo base
        else if truthy (photo add) then photo add else photo base) \<and>
     (\<forall>s. photo base = Str s \<and> s \<noteq> [] \<longrightarrow> photo (mergeOne base add) = Str s) \<and>
     (photo (mergeOne base add) \<noteq> photo base \<longrightarrow>
        photo (mergeOne base add) = photo add \<and>
        (photo base = Null \<or> photo base = Undefined \<or> photo base = Str []))"
proof -
  assume "makeNameKey base = makeNameKey add"
  then have "mergeDoctors [base] [add] = [mergeOne base add]"
    by (simp add: mergeDoctors_pair)
  moreover have "photo base = Null \<or> photo base = Undefined \<or> photo base = Str []"
    if "\<not> truthy (photo base)"
    using that by (cases "photo base") simp_all
  ultimately show ?thesis
    by (auto simp add: photo_mergeOne)
qed

theorem mergeDoctors_photo_witness:
  "makeNameKey doc_padded = makeNameKey doc_plain \<and>
   mergeDoctors [doc_padded] [doc_plain] = [mergeOne doc_padded doc_plain] \<and>
   photo doc_padded = Null \<and>
   photo (mergeOne doc_padded doc_plain) = Str [0x2F, 0x61, 0x2E, 0x6A, 0x70, 0x67]"
proof -
  have k: "makeNameKey doc_padded = makeNameKey doc_plain"
    by (simp add: key_doc_padded key_doc_plain)
  have p: "photo doc_padded = Null" "photo doc_plain = Str [0x2F, 0x61, 0x2E, 0x6A, 0x70, 0x67]"
    by (simp_all add: doc_padded_def doc_plain_def blank_doctor_def)
  note r = mergeDoctors_photo [OF k]
  from r have a: "mergeDoctors [doc_padded] [doc_plain] = [mergeOne doc_padded doc_plain]"
    by (rule conjunct1)
  from r have "photo (mergeOne doc_padded doc_plain) =
      (if truthy (photo doc_padded) then photo doc_padded
       else if truthy (photo doc_plain) then photo doc_plain else photo doc_padded)"
    by (elim conjE)
  then have c: "photo (mergeOne doc_padded doc_plain) = Str [0x2F, 0x61, 0x2E, 0x6A, 0x70, 0x67]"
    by (simp add: p)
  from k a p(1) c show ?thesis by (intro conjI)
qed

section \<open>Properties of the service\<close>

subsection \<open>The blacklist\<close>

lemma blacklist_entry_normal:
  "x \<in> set NAME_BLACKLIST \<Longrightarrow> trim (replace_runs not_alnum x) = x"
  by (simp add: NAME_BLACKLIST_def trim_def not_alnum_def isWhiteSpace_def)

lemma spec_blacklisted_imp: "spec_blacklisted d \<Longrightarrow> isBlacklisted d"
  by (simp add: spec_blacklisted_def isBlacklisted_def makeFullName_def normalizeRu_def
      spec_full_name_def blacklist_entry_normal)

lemma applyRemovals_clean: "\<forall>d \<in> set (applyRemovals xs). \<not> isBlacklisted d"
  by (simp add: applyRemovals_def)

lemma applyRemovals_id: "\<forall>d \<in> set xs. \<not> isBlacklisted d \<Longrightarrow> applyRemovals xs = xs"
  by (simp add: applyRemovals_def)

lemma new_service_clean: "\<forall>d \<in> set (doctorsCache (new_service env_url now0 throws slot)). \<not> isBlacklisted d"
  by (auto simp add: new_service_def applyRemovals_def split: option.splits jsdata.splits)

lemma refreshDoctors_clean:
  "\<forall>d \<in> set (doctorsCache this). \<not> isBlacklisted d \<Longrightarrow>
   \<forall>d \<in> set (doctorsCache (refreshDoctors s this)). \<not> isBlacklisted d"
  by (simp add: refreshDoctors_def Let_def applyRemovals_def)

lemma store_cache: "doctorsCache (store s cache this) = cache"
  by (simp add: store_def)

lemma filter_and_store_clean:
  "(\<forall>d \<in> set (fst (filter_and_store s this)). \<not> isBlacklisted d) \<and>
   doctorsCache (snd (filter_and_store s this)) = fst (filter_and_store s this)"
  by (simp add: filter_and_store_def Let_def store_cache applyRemovals_def)

lemma after_snapshot_clean:
  "(\<forall>d \<in> set (fst (after_snapshot s this)). \<not> isBlacklisted d) \<and>
   doctorsCache (snd (after_snapshot s this)) = fst (after_snapshot s this)"
  unfolding after_snapshot_def by (rule filter_and_store_clean)

lemma filter_and_store_resolved:
  "(case filter_and_store s this of (cache, this') \<Rightarrow> Resolved cache this') = Resolved r t \<Longrightarrow>
     (\<forall>d \<in> set r. \<not> isBlacklisted d) \<and> doctorsCache t = r"
  using filter_and_store_clean [of s this] by (auto split: prod.splits)

lemma from_mock_awaits: "from_mock s this \<noteq> Resolved r t"
  by (simp add: from_mock_def)

lemma from_local_file_resolved:
  "from_local_file s this = Resolved r t \<Longrightarrow> (\<forall>d \<in> set r. \<not> isBlacklisted d) \<and> doctorsCache t = r"
  using filter_and_store_resolved [of s "this\<lparr>doctorsCache := list_of_json raw\<rparr>" r t for raw]
  by (auto simp add: from_local_file_def Let_def from_mock_awaits
      split: import_result.splits if_splits)

lemma from_api_resolved:
  "from_api s this = Resolved r t \<Longrightarrow> (\<forall>d \<in> set r. \<not> isBlacklisted d) \<and> doctorsCache t = r"
  using filter_and_store_resolved [of s "this\<lparr>doctorsCache := xs\<rparr>" r t for xs]
  by (auto simp add: from_api_def Let_def split: if_splits)

lemma getDoctors_fetch_resolved:
  assumes "getDoctors_fetch s this = Resolved r t"
  shows "(\<forall>d \<in> set r. \<not> isBlacklisted d) \<and> doctorsCache t = r"
proof -
  have ok: "Resolved (applyRemovals xs) (store s (applyRemovals xs) this) = Resolved r t \<Longrightarrow>
      (\<forall>d \<in> set r. \<not> isBlacklisted d) \<and> doctorsCache t = r" for xs
    by (auto simp add: store_cache applyRemovals_def)
  from assms consider "from_local_file s this = Resolved r t" | "from_api s this = Resolved r t"
    | xs where "Resolved (applyRemovals xs) (store s (applyRemovals xs) this) = Resolved r t"
    by (auto simp add: getDoctors_fetch_def Let_def
        split: slot.splits gateway_result.splits if_splits)
  then show ?thesis
    using from_local_file_resolved from_api_resolved ok by cases blast+
qed

lemma getDoctors_from_cache_clean:
  assumes "\<forall>d \<in> set (doctorsCache this). \<not> isBlacklisted d"
    and "getDoctors_from_cache s this = Some (r, t)"
  shows "(\<forall>d \<in> set r. \<not> isBlacklisted d) \<and> doctorsCache t = r"
  using assms
  by (auto simp add: getDoctors_from_cache_def Let_def store_cache applyRemovals_def
      split: if_splits option.splits jsdata.splits list.splits)

lemma getDoctors_clean:
  assumes "\<forall>d \<in> set (doctorsCache this). \<not> isBlacklisted d"
  shows "(\<forall>d \<in> set (fst (getDoctors s this)). \<not> isBlacklisted d) \<and>
         (\<forall>d \<in> set (doctorsCache (snd (getDoctors s this))). \<not> isBlacklisted d)"
proof (cases "getDoctors_from_cache s this")
  case (Some rt)
  obtain r t where rt: "rt = (r, t)" by (cases rt)
  from getDoctors_from_cache_clean [OF assms Some [unfolded rt]]
  have c: "\<forall>d \<in> set r. \<not> isBlacklisted d" "doctorsCache t = r" by simp_all
  then have "\<forall>d \<in> set (doctorsCache (refreshDoctors s t)). \<not> isBlacklisted d"
    by (intro refreshDoctors_clean) simp
  with c show ?thesis by (simp add: getDoctors_def Some rt)
next
  case None
  show ?thesis
  proof (cases "getDoctors_fetch s this")
    case (Resolved r t)
    from getDoctors_fetch_resolved [OF this] show ?thesis
      by (simp add: getDoctors_def None Resolved)
  next
    case (AwaitingSnapshot t)
    show ?thesis
      using after_snapshot_clean [of s t] by (simp add: getDoctors_def None AwaitingSnapshot)
  qed
qed

lemma between_calls_clean: "between_calls this \<Longrightarrow> \<forall>d \<in> set (doctorsCache this). \<not> isBlacklisted d"
proof (induction rule: between_calls.induct)
  case (constructed env_url now0 throws slot)
  show ?case by (rule new_service_clean)
next
  case (called this s)
  then show ?case using getDoctors_clean by blast
next
  case (refreshed this s)
  from refreshed.IH show ?case by (rule refreshDoctors_clean)
next
  case (slot_changed this slot)
  then show ?case by simp
qed

text \<open>
  While calls of \<open>getDoctors\<close> do not overlap, no list they resolve with holds a
  record whose normalized full name is in the blacklist; and \<open>getDoctor\<close> answers such
  a record, returned by the API, with the error of a missing record.
\<close>

lemma getDoctors_in_turn:
  "between_calls this \<Longrightarrow> \<forall>d \<in> set (fst (getDoctors s this)). \<not> spec_blacklisted d"
  using getDoctors_clean [OF between_calls_clean, of this s] spec_blacklisted_imp by blast

lemma getDoctor_blacklisted:
  "spec_blacklisted doc \<Longrightarrow>
     getDoctor (Inr doc) = Inl (Error (ascii ''Archimed API error: 404 - Not found''))"
  using spec_blacklisted_imp [of doc] by (simp add: getDoctor_def)

subsection \<open>The page loop\<close>

lemma fetch_pages_out:
  "\<not> page \<le> min totalPages MAX_API_PAGES \<Longrightarrow>
     fetch_pages api limit totalPages page all requested = (all, requested)"
  by (subst fetch_pages.simps) (simp only: if_False)

lemma fetch_pages_in:
  "page \<le> min totalPages MAX_API_PAGES \<Longrightarrow>
     fetch_pages api limit totalPages page all requested =
       (case api page limit of
           RequestFails \<Rightarrow> (all, requested @ [page])
         | Response next \<Rightarrow>
             (case resp_data next of
                Some ds \<Rightarrow>
                  if ds \<noteq> [] then
                    (if int (length ds) < limit then (all @ ds, requested @ [page])
                     else fetch_pages api limit totalPages (page + 1) (all @ ds) (requested @ [page]))
                  else (all, requested @ [page])
              | None \<Rightarrow> (all, requested @ [page])))"
  by (subst fetch_pages.simps) (simp only: if_True)

lemma fetch_pages_spec:
  "\<exists>n. page - 1 \<le> n \<and> n \<le> max (page - 1) (min totalPages MAX_API_PAGES) \<and>
     fetch_pages api limit totalPages page all requested =
       (all @ concat (map (page_records api limit) [page..n]), requested @ [page..n]) \<and>
     (\<forall>k. page \<le> k \<and> k < n \<longrightarrow> \<not> request_fails api limit k \<and> \<not> empty_or_short api limit k)"
proof (induction api limit totalPages page all requested rule: fetch_pages.induct)
  case (1 api limit totalPages page all requested)
  let ?P = "\<lambda>n. page - 1 \<le> n \<and> n \<le> max (page - 1) (min totalPages MAX_API_PAGES) \<and>
     fetch_pages api limit totalPages page all requested =
       (all @ concat (map (page_records api limit) [page..n]), requested @ [page..n]) \<and>
     (\<forall>k. page \<le> k \<and> k < n \<longrightarrow> \<not> request_fails api limit k \<and> \<not> empty_or_short api limit k)"
  show ?case
  proof (cases "page \<le> min totalPages MAX_API_PAGES")
    case False
    then have "?P (page - 1)" by (auto simp add: fetch_pages_out)
    then show ?thesis by blast
  next
    case inrange: True
    have single: "[page..page] = [page]" by (simp add: upto_rec1)
    show ?thesis
    proof (cases "api page limit")
      case RequestFails
      with inrange have "?P page"
        by (auto simp add: fetch_pages_in page_records_def single)
      then show ?thesis by blast
    next
      case (Response nxt)
      show ?thesis
      proof (cases "resp_data nxt")
        case None
        with inrange Response have "?P page"
          by (auto simp add: fetch_pages_in page_records_def single)
        then show ?thesis by blast
      next
        case (Some ds)
        have recs: "page_records api limit page = ds"
          using Response Some by (simp add: page_records_def)
        show ?thesis
        proof (cases "ds = [] \<or> int (length ds) < limit")
          case True
          with inrange Response Some have "?P page"
            by (auto simp add: fetch_pages_in recs single)
          then show ?thesis by blast
        next
          case False
          then have ne: "ds \<noteq> []" and full: "\<not> int (length ds) < limit" by auto
          from "1.IH" [OF inrange Response Some ne full]
          obtain n where n: "page + 1 - 1 \<le> n"
            "n \<le> max (page + 1 - 1) (min totalPages MAX_API_PAGES)"
            "fetch_pages api limit totalPages (page + 1) (all @ ds) (requested @ [page]) =
               ((all @ ds) @ concat (map (page_records api limit) [page + 1..n]),
                (requested @ [page]) @ [page + 1..n])"
            "\<forall>k. page + 1 \<le> k \<and> k < n \<longrightarrow> \<not> request_fails api limit k \<and> \<not> empty_or_short api limit k"
            by blast
          have up: "[page..n] = page # [page + 1..n]" using n(1) by (simp add: upto_rec1)
          have here: "\<not> request_fails api limit page \<and> \<not> empty_or_short api limit page"
            using Response ne full by (simp add: request_fails_def empty_or_short_def recs)
          have "fetch_pages api limit totalPages page all requested =
              fetch_pages api limit totalPages (page + 1) (all @ ds) (requested @ [page])"
            using inrange Response Some ne full
            by (simp add: fetch_pages_in)
          moreover have "\<forall>k. page \<le> k \<and> k < n \<longrightarrow>
              \<not> request_fails api limit k \<and> \<not> empty_or_short api limit k"
          proof (intro allI impI)
            fix k
            assume "page \<le> k \<and> k < n"
            then consider "k = page" | "page + 1 \<le> k \<and> k < n" by linarith
            then show "\<not> request_fails api limit k \<and> \<not> empty_or_short api limit k"
              using here n(4) by cases blast+
          qed
          moreover have "page - 1 \<le> n" "n \<le> max (page - 1) (min totalPages MAX_API_PAGES)"
            using n(1,2) inrange by linarith+
          ultimately have "?P n"
            using n(3) up by (simp add: recs)
          then show ?thesis by blast
        qed
      qed
    qed
  qed
qed

lemma url_nonempty: "ARCHIMED_API_URL env_url \<noteq> []"
  by (cases env_url) (simp_all add: ARCHIMED_API_URL_def ascii_def)

lemma upto_1_1: "[1..1] = [1::int]"
  by (simp add: upto_rec1)

lemma fetchAll_first_fails:
  "url \<noteq> [] \<Longrightarrow> api 1 DEFAULT_API_PAGE_LIMIT = RequestFails \<Longrightarrow>
     fetchAllDoctorsFromAPI_trace url api = ([], [1])"
  by (simp add: fetchAllDoctorsFromAPI_trace_def)

lemma fetchAll_trace_spec:
  assumes "url \<noteq> []"
  shows "\<exists>n. 1 \<le> n \<and> n \<le> MAX_API_PAGES \<and>
     fetchAllDoctorsFromAPI_trace url api =
       (concat (map (\<lambda>p. page_records api (limit_of_page api p) p) [1..n]), [1..n]) \<and>
     (\<forall>k. 1 \<le> k \<and> k < n \<longrightarrow> \<not> request_fails api (limit_of_page api k) k) \<and>
     (\<forall>k. 2 \<le> k \<and> k < n \<longrightarrow> \<not> empty_or_short api (limit_of_page api k) k)"
proof (cases "api 1 DEFAULT_API_PAGE_LIMIT")
  case RequestFails
  then have "fetchAllDoctorsFromAPI_trace url api = ([], [1])"
    using assms by (rule fetchAll_first_fails [rotated])
  moreover have "page_records api (limit_of_page api 1) 1 = []"
    using RequestFails by (simp add: page_records_def limit_of_page_def)
  ultimately show ?thesis
    by (intro exI [of _ 1]) (auto simp add: upto_1_1 MAX_API_PAGES_def)
next
  case (Response first)
  define all where "all = (case resp_data first of Some ds \<Rightarrow> ds | None \<Rightarrow> [])"
  define total where "total = (case resp_total first of Some t \<Rightarrow> t
       | None \<Rightarrow> (case resp_data first of Some ds \<Rightarrow> int (length ds) | None \<Rightarrow> 0))"
  define limit where "limit = (case resp_limit first of Some l \<Rightarrow> l | None \<Rightarrow> DEFAULT_API_PAGE_LIMIT)"
  define totalPages where "totalPages =
     (if limit > 0 then ceil_div (if total \<noteq> 0 then total else int (length all)) limit else 1)"
  have tr: "fetchAllDoctorsFromAPI_trace url api = fetch_pages api limit totalPages 2 all [1]"
    using assms Response
    by (simp add: fetchAllDoctorsFromAPI_trace_def Let_def all_def total_def limit_def totalPages_def)
  have lim: "later_limit api = limit"
    using Response by (simp add: later_limit_def limit_def)
  have first: "page_records api (limit_of_page api 1) 1 = all"
    using Response by (simp add: page_records_def limit_of_page_def all_def)
  have nofail: "\<not> request_fails api (limit_of_page api 1) 1"
    using Response by (simp add: request_fails_def limit_of_page_def)
  from fetch_pages_spec [of 2 totalPages api limit all "[1]"]
  obtain n where n: "1 \<le> n" "n \<le> max 1 (min totalPages MAX_API_PAGES)"
    "fetch_pages api limit totalPages 2 all [1] =
       (all @ concat (map (page_records api limit) [2..n]), [1] @ [2..n])"
    "\<forall>k. 2 \<le> k \<and> k < n \<longrightarrow> \<not> request_fails api limit k \<and> \<not> empty_or_short api limit k"
    by auto
  have up: "[1..n] = 1 # [2..n]" using n(1) by (simp add: upto_rec1)
  have later: "map (\<lambda>p. page_records api (limit_of_page api p) p) [2..n]
      = map (page_records api limit) [2..n]"
    by (rule map_cong) (auto simp: limit_of_page_def lim)
  have recs: "concat (map (\<lambda>p. page_records api (limit_of_page api p) p) [1..n])
      = all @ concat (map (page_records api limit) [2..n])"
    unfolding up by (simp add: first later)
  have fails: "\<forall>k. 1 \<le> k \<and> k < n \<longrightarrow> \<not> request_fails api (limit_of_page api k) k"
  proof (intro allI impI)
    fix k :: int
    assume "1 \<le> k \<and> k < n"
    then consider "k = 1" | "2 \<le> k \<and> k < n" by linarith
    then show "\<not> request_fails api (limit_of_page api k) k"
      using nofail n(4) by cases (auto simp: limit_of_page_def lim)
  qed
  have short: "\<forall>k. 2 \<le> k \<and> k < n \<longrightarrow> \<not> empty_or_short api (limit_of_page api k) k"
    using n(4) by (auto simp: limit_of_page_def lim)
  have "n \<le> MAX_API_PAGES" using n(2) by (simp add: MAX_API_PAGES_def)
  with n(1) tr n(3) recs up fails short show ?thesis
    by (intro exI [of _ n]) simp
qed

lemma not_blacklisted_doc_plain: "\<not> isBlacklisted doc_plain"
  by (simp add: isBlacklisted_def makeFullName_def normalizeRu_def joined_name_def
      doc_plain_def blank_doctor_def NAME_BLACKLIST_def trim_def toLowerCase_def
      toLowerCase_unit_def replace_yo_def not_alnum_def isWhiteSpace_def)

lemma trace_short_first_page:
  "fetchAllDoctorsFromAPI_trace (ARCHIMED_API_URL Undefined) api_short_first_page
     = ([doc_padded, doc_plain], [1, 2])"
  by (simp add: fetchAllDoctorsFromAPI_trace_def url_nonempty api_short_first_page_def
      DEFAULT_API_PAGE_LIMIT_def ceil_div_def fetch_pages_in fetch_pages_out MAX_API_PAGES_def)

lemma trace_fails_on_page_2:
  "fetchAllDoctorsFromAPI_trace (ARCHIMED_API_URL Undefined) api_fails_on_page_2
     = ([doc_plain], [1, 2])"
  by (simp add: fetchAllDoctorsFromAPI_trace_def url_nonempty api_fails_on_page_2_def
      DEFAULT_API_PAGE_LIMIT_def ceil_div_def fetch_pages_in fetch_pages_out MAX_API_PAGES_def)

lemma fetchAll_first_fails_any:
  "api 1 DEFAULT_API_PAGE_LIMIT = RequestFails \<Longrightarrow> fetchAllDoctorsFromAPI url api = []"
  by (simp add: fetchAllDoctorsFromAPI_def fetchAllDoctorsFromAPI_trace_def)

lemma request_pages_window: "slot \<noteq> NoWindow \<Longrightarrow> request_pages slot api = api"
  by (cases slot) (simp_all add: request_pages_def)

lemma refreshDoctors_empty:
  "fetchAllDoctorsFromAPI (baseUrl this) (request_pages (doctors_slot this) (api_refresh s)) = [] \<Longrightarrow>
     refreshDoctors s this = this"
  by (simp add: refreshDoctors_def)

text \<open>
  With a list in the in-memory cache \<open>getDoctors\<close> resolves with that list and starts a
  refresh; a refresh whose fetch yields nothing, as it does when its first request fails,
  leaves the service object as it was.
\<close>

lemma getDoctors_serves_cache:
  "doctorsCache this \<noteq> [] \<Longrightarrow>
     fst (getDoctors s this) = doctorsCache this \<and>
     snd (getDoctors s this) = refreshDoctors s this \<and>
     (request_pages (doctors_slot this) (api_refresh s) 1 DEFAULT_API_PAGE_LIMIT = RequestFails \<longrightarrow>
        snd (getDoctors s this) = this)"
  by (simp add: getDoctors_def getDoctors_from_cache_def refreshDoctors_empty fetchAll_first_fails_any)

lemma not_blacklisted_doc_ab_c: "\<not> isBlacklisted doc_ab_c"
  by (simp add: isBlacklisted_def makeFullName_def normalizeRu_def joined_name_def
      doc_ab_c_def blank_doctor_def NAME_BLACKLIST_def trim_def toLowerCase_def
      toLowerCase_unit_def replace_yo_def not_alnum_def isWhiteSpace_def)

lemma trace_lists_blacklisted:
  "fetchAllDoctorsFromAPI_trace (ARCHIMED_API_URL Undefined) api_lists_blacklisted
     = ([doc_blacklisted, doc_plain], [1])"
  by (simp add: fetchAllDoctorsFromAPI_trace_def url_nonempty api_lists_blacklisted_def
      DEFAULT_API_PAGE_LIMIT_def ceil_div_def fetch_pages_out MAX_API_PAGES_def)

lemma spec_blacklisted_sample: "spec_blacklisted doc_blacklisted"
  by (simp add: spec_blacklisted_def spec_full_name_def joined_name_def doc_blacklisted_def
      blank_doctor_def NAME_BLACKLIST_def toLowerCase_def toLowerCase_unit_def replace_yo_def)

subsection \<open>The claims about the service\<close>

text \<open>
  C5, as worded: the loop stops as soon as a page is empty or returns fewer records than
  the page limit. The first page is exempt: here it holds one record, fewer than the
  limit of 200, and page 2 is requested all the same, because the first answer reports a
  total of 400 records in pages of 200.
\<close>

theorem fetch_stops_counterexample:
  "empty_or_short api_short_first_page DEFAULT_API_PAGE_LIMIT 1 \<and>
   snd (fetchAllDoctorsFromAPI_trace (ARCHIMED_API_URL Undefined) api_short_first_page) = [1, 2]"
  by (simp add: trace_short_first_page)
    (simp add: empty_or_short_def page_records_def api_short_first_page_def
      DEFAULT_API_PAGE_LIMIT_def)

text \<open>
  C5, amended: with a base URL, \<open>fetchAllDoctorsFromAPI\<close> requests the pages
  \<open>1, 2, .., n\<close> in this order, with \<open>n\<close> at most \<open>MAX_API_PAGES = 50\<close>; no request
  before the last one failed, and no page after the first and before the last one was
  empty or shorter than the limit, so the loop stops at the first such page; the result
  is the records of the pages requested, a failed request contributing none, and the
  function always returns.
\<close>

theorem fetchAllDoctorsFromAPI_pages:
  "url \<noteq> [] \<Longrightarrow>
   \<exists>n. 1 \<le> n \<and> n \<le> MAX_API_PAGES \<and> MAX_API_PAGES = 50 \<and>
     snd (fetchAllDoctorsFromAPI_trace url api) = [1..n] \<and>
     fetchAllDoctorsFromAPI url api =
       concat (map (\<lambda>p. page_records api (limit_of_page api p) p) [1..n]) \<and>
     (\<forall>k. 1 \<le> k \<and> k < n \<longrightarrow> \<not> request_fails api (limit_of_page api k) k) \<and>
     (\<forall>k. 2 \<le> k \<and> k < n \<longrightarrow> \<not> empty_or_short api (limit_of_page api k) k)"
proof -
  assume "url \<noteq> []"
  from fetchAll_trace_spec [OF this, of api] obtain n where
    "1 \<le> n" "n \<le> MAX_API_PAGES"
    "fetchAllDoctorsFromAPI_trace url api =
       (concat (map (\<lambda>p. page_records api (limit_of_page api p) p) [1..n]), [1..n])"
    "\<forall>k. 1 \<le> k \<and> k < n \<longrightarrow> \<not> request_fails api (limit_of_page api k) k"
    "\<forall>k. 2 \<le> k \<and> k < n \<longrightarrow> \<not> empty_or_short api (limit_of_page api k) k"
    by blast
  then show ?thesis
    by (intro exI [of _ n]) (simp add: fetchAllDoctorsFromAPI_def MAX_API_PAGES_def)
qed

theorem fetchAllDoctorsFromAPI_pages_witness:
  "ARCHIMED_API_URL Undefined \<noteq> [] \<and>
   (\<exists>n. 1 \<le> n \<and> n \<le> 50 \<and> [1..n] = [1, 2] \<and>
      fetchAllDoctorsFromAPI (ARCHIMED_API_URL Undefined) api_short_first_page =
        concat (map (\<lambda>p. page_records api_short_first_page
                             (limit_of_page api_short_first_page p) p) [1..n]))"
proof -
  have u: "ARCHIMED_API_URL Undefined \<noteq> []" by (rule url_nonempty)
  from fetchAllDoctorsFromAPI_pages [OF u, of api_short_first_page] obtain n where
    n: "1 \<le> n" "n \<le> MAX_API_PAGES" "MAX_API_PAGES = 50"
      "snd (fetchAllDoctorsFromAPI_trace (ARCHIMED_API_URL Undefined) api_short_first_page) = [1..n]"
      "fetchAllDoctorsFromAPI (ARCHIMED_API_URL Undefined) api_short_first_page =
        concat (map (\<lambda>p. page_records api_short_first_page
                             (limit_of_page api_short_first_page p) p) [1..n])"
    by blast
  from n(4) have "[1..n] = [1, 2]" by (simp add: trace_short_first_page)
  with n u show ?thesis by (intro conjI exI [of _ n]) simp_all
qed

text \<open>
  C4 at the failing input: the service object has cached and stored two records; the
  call resolves with them and starts a refresh; the first request of the refresh brings
  the first of the two records, the second request fails. The refresh does not keep the
  stale data: it replaces cache and storage slot by the one record it has.
\<close>

theorem getDoctors_refresh_fails_on_page_2:
  "getDoctors_from_cache refresh_fails_on_page_2 cached_service
     = Some ([doc_plain, doc_ab_c], cached_service) \<and>
   snd (fetchAllDoctorsFromAPI_trace (baseUrl cached_service) (api_refresh refresh_fails_on_page_2))
     = [1, 2] \<and>
   request_fails (api_refresh refresh_fails_on_page_2) 1 2 \<and>
   doctorsCache (refreshDoctors refresh_fails_on_page_2 cached_service) = [doc_plain] \<and>
   doctors_slot (refreshDoctors refresh_fails_on_page_2 cached_service)
     = Payload (DArray [doc_plain]) (Some 1762000000000) \<and>
   getDoctors refresh_fails_on_page_2 cached_service
     = ([doc_plain, doc_ab_c], refreshDoctors refresh_fails_on_page_2 cached_service)"
proof -
  have a: "api_refresh refresh_fails_on_page_2 = api_fails_on_page_2"
    "now refresh_fails_on_page_2 = 1762000000000" "\<not> setItem_throws refresh_fails_on_page_2"
    by (simp_all add: refresh_fails_on_page_2_def nothing_answers_def)
  have b: "baseUrl cached_service = ARCHIMED_API_URL Undefined"
    "doctorsCache cached_service = [doc_plain, doc_ab_c]"
    "doctors_slot cached_service = Payload (DArray [doc_plain, doc_ab_c]) (Some 1761000000000)"
    by (simp_all add: cached_service_def)
  have c: "request_fails api_fails_on_page_2 1 2"
    by (simp add: request_fails_def api_fails_on_page_2_def)
  have f: "getDoctors_from_cache refresh_fails_on_page_2 cached_service
      = Some ([doc_plain, doc_ab_c], cached_service)"
    by (simp add: getDoctors_from_cache_def b)
  have r: "refreshDoctors refresh_fails_on_page_2 cached_service =
      cached_service\<lparr>doctorsCache := [doc_plain],
        doctors_slot := Payload (DArray [doc_plain]) (Some 1762000000000)\<rparr>"
    by (simp add: refreshDoctors_def Let_def a b request_pages_def fetchAllDoctorsFromAPI_def
        trace_fails_on_page_2 applyRemovals_def not_blacklisted_doc_plain writeToStorage_def)
  have g: "getDoctors refresh_fails_on_page_2 cached_service
      = ([doc_plain, doc_ab_c], refreshDoctors refresh_fails_on_page_2 cached_service)"
    by (simp add: getDoctors_def f)
  show ?thesis
    by (intro conjI) (simp_all add: f g c a(1) b(1) trace_fails_on_page_2 r)
qed

text \<open>
  C3 at the failing input: nothing is cached or stored, the public gateway answers with
  an error status, the first request to the Archimed API fails, \<open>doctors.json\<close> holds a
  record and there is no ProDoctorov snapshot. \<open>getDoctors\<close> resolves with the empty
  list; \<open>doctors.json\<close> is not loaded. It is loaded when the gateway request itself
  rejects.
\<close>

theorem getDoctors_gateway_error_api_down:
  "doctorsCache fresh_service = [] \<and>
   doctors_slot fresh_service = NoItem \<and>
   gateway gateway_error_api_down = GatewayNotOk \<and>
   request_fails (api_direct gateway_error_api_down) DEFAULT_API_PAGE_LIMIT 1 \<and>
   doctors_json gateway_error_api_down = Imported (DArray [doc_plain]) \<and>
   fst (getDoctors gateway_error_api_down fresh_service) = [] \<and>
   fst (getDoctors (gateway_error_api_down\<lparr>gateway := GatewayRejects\<rparr>) fresh_service) = [doc_plain]"
proof -
  have f: "fetchAllDoctorsFromAPI url api_down = []" for url
    by (rule fetchAll_first_fails_any) (simp add: api_down_def)
  have e: "gateway gateway_error_api_down = GatewayNotOk"
    "api_direct gateway_error_api_down = api_down"
    "doctors_json gateway_error_api_down = Imported (DArray [doc_plain])"
    "proDocs gateway_error_api_down = []"
    by (simp_all add: gateway_error_api_down_def nothing_answers_def)
  have s: "doctorsCache fresh_service = []" "doctors_slot fresh_service = NoItem"
    by (simp_all add: fresh_service_def)
  have c: "getDoctors_from_cache env fresh_service = None" for env
    by (simp add: getDoctors_from_cache_def s readFromStorage_def)
  have 1: "fst (getDoctors gateway_error_api_down fresh_service) = []"
    by (simp add: getDoctors_def c getDoctors_fetch_def s e from_api_def request_pages_def f
        Let_def after_snapshot_def filter_and_store_def applyRemovals_def)
  have 2: "fst (getDoctors (gateway_error_api_down\<lparr>gateway := GatewayRejects\<rparr>) fresh_service)
      = [doc_plain]"
    by (simp add: getDoctors_def c getDoctors_fetch_def s e from_local_file_def
        Let_def after_snapshot_def filter_and_store_def applyRemovals_def not_blacklisted_doc_plain)
  show ?thesis
    by (intro conjI) (simp_all add: s e 1 2 request_fails_def api_down_def)
qed

text \<open>
  C10, as worded: a payload with non-null data and timestamp is returned. A payload
  whose timestamp is the number 0 has both, and \<open>null\<close> is returned.
\<close>

theorem readFromStorage_counterexample:
  "DArray [doc_plain] \<noteq> DNull \<and> DArray [doc_plain] \<noteq> DUndefined \<and>
   readFromStorage (Payload (DArray [doc_plain]) (Some 0)) 1762000000000 DOCTORS_CACHE_TTL_MS = None"
  by (simp add: readFromStorage_def)

text \<open>
  C10, amended: a payload whose data and timestamp are both truthy (the data not
  \<open>undefined\<close>, \<open>null\<close>, \<open>false\<close>, \<open>0\<close> or the empty string, the timestamp not \<open>0\<close>)
  is returned whatever the clock and the TTL are; \<open>null\<close> is returned exactly when the
  slot is missing or empty, is not JSON, is not an object, or its data or timestamp is
  missing or falsy.
\<close>

theorem readFromStorage_ignores_ttl:
  "(data_truthy d \<and> t \<noteq> 0 \<longrightarrow> readFromStorage (Payload d (Some t)) now0 ttlMs = Some d) \<and>
   readFromStorage slot now0 ttlMs = readFromStorage slot now1 ttlMs' \<and>
   (readFromStorage slot now0 ttlMs = None \<longleftrightarrow>
      slot = NoWindow \<or> slot = NoItem \<or> slot = Unparsable \<or> slot = NotAnObject \<or>
      (\<exists>d' ts. slot = Payload d' ts \<and> (\<not> data_truthy d' \<or> ts = None \<or> ts = Some 0)))"
  by (cases slot) (auto simp add: readFromStorage_def Let_def split: option.splits)

theorem readFromStorage_ignores_ttl_witness:
  "data_truthy (DArray [doc_plain]) \<and> (1::int) \<noteq> 0 \<and>
   \<not> (1762000000000 - 1 < DOCTORS_CACHE_TTL_MS) \<and>
   readFromStorage (Payload (DArray [doc_plain]) (Some 1)) 1762000000000 DOCTORS_CACHE_TTL_MS
     = Some (DArray [doc_plain])"
proof -
  have h: "data_truthy (DArray [doc_plain]) \<and> (1::int) \<noteq> 0" by simp
  have stale: "\<not> (1762000000000 - 1 < DOCTORS_CACHE_TTL_MS)"
    by (simp add: DOCTORS_CACHE_TTL_MS_def)
  from readFromStorage_ignores_ttl
    [where d = "DArray [doc_plain]" and t = 1 and ?now0.0 = 1762000000000
       and ttlMs = DOCTORS_CACHE_TTL_MS and slot = NoItem and ?now1.0 = 0 and ttlMs' = 0]
  have "data_truthy (DArray [doc_plain]) \<and> (1::int) \<noteq> 0 \<longrightarrow>
      readFromStorage (Payload (DArray [doc_plain]) (Some 1)) 1762000000000 DOCTORS_CACHE_TTL_MS
        = Some (DArray [doc_plain])"
    by (rule conjunct1)
  with h stale show ?thesis by blast
qed

text \<open>
  C9 at the failing input: nothing is cached or stored, the gateway answers with an error
  status, and the API lists two records, one of them with the name of the blacklist. A
  first call of \<open>getDoctors\<close> assigns that list to \<open>doctorsCache\<close> and waits for
  \<open>loadProdoctorovSnapshot\<close>. A second call made meanwhile finds the cache filled and
  resolves with it, the blacklisted record included. The first call, once the snapshot is
  there, resolves with the other record alone, as it does when no call overlaps it.
\<close>

theorem getDoctors_overlapping_calls:
  "getDoctors_from_cache gateway_error_api_lists_blacklisted fresh_service = None \<and>
   getDoctors_fetch gateway_error_api_lists_blacklisted fresh_service
     = AwaitingSnapshot service_awaiting_snapshot \<and>
   getDoctors_from_cache gateway_error_api_lists_blacklisted service_awaiting_snapshot
     = Some ([doc_blacklisted, doc_plain], service_awaiting_snapshot) \<and>
   spec_blacklisted doc_blacklisted \<and>
   isBlacklisted doc_blacklisted \<and>
   fst (after_snapshot gateway_error_api_lists_blacklisted service_awaiting_snapshot) = [doc_plain] \<and>
   fst (getDoctors gateway_error_api_lists_blacklisted fresh_service) = [doc_plain]"
proof -
  let ?env = gateway_error_api_lists_blacklisted
  have e: "gateway ?env = GatewayNotOk" "api_direct ?env = api_lists_blacklisted" "proDocs ?env = []"
    by (simp_all add: gateway_error_api_lists_blacklisted_def nothing_answers_def)
  have s: "doctorsCache fresh_service = []" "doctors_slot fresh_service = NoItem"
    "baseUrl fresh_service = ARCHIMED_API_URL Undefined"
    by (simp_all add: fresh_service_def)
  have b: "isBlacklisted doc_blacklisted"
    using spec_blacklisted_sample by (rule spec_blacklisted_imp)
  have 1: "getDoctors_from_cache ?env fresh_service = None"
    by (simp add: getDoctors_from_cache_def s readFromStorage_def)
  have 2: "getDoctors_fetch ?env fresh_service = AwaitingSnapshot service_awaiting_snapshot"
    by (simp add: getDoctors_fetch_def s e from_api_def request_pages_def Let_def
        fetchAllDoctorsFromAPI_def trace_lists_blacklisted service_awaiting_snapshot_def)
  have 3: "getDoctors_from_cache ?env service_awaiting_snapshot
      = Some ([doc_blacklisted, doc_plain], service_awaiting_snapshot)"
    by (simp add: getDoctors_from_cache_def service_awaiting_snapshot_def)
  have 4: "fst (after_snapshot ?env service_awaiting_snapshot) = [doc_plain]"
    by (simp add: after_snapshot_def filter_and_store_def Let_def e service_awaiting_snapshot_def
        applyRemovals_def b not_blacklisted_doc_plain)
  have 5: "fst (getDoctors ?env fresh_service) = [doc_plain]"
    by (simp add: getDoctors_def 1 2 4)
  from 1 2 3 spec_blacklisted_sample b 4 5 show ?thesis by (intro conjI)
qed

section \<open>Properties of the linking functions and of the script\<close>




lemma hasNoPhoto_cong: "entry_photo x = entry_photo y \<Longrightarrow> hasNoPhoto x = hasNoPhoto y"
  by (simp add: hasNoPhoto_def)

lemma update_item_fullName: "fullName (update_item item f sp) = fullName item"
  by (simp add: update_item_def Let_def)

lemma update_item_photo:
  "entry_photo (update_item item f sp) =
     (if hasNoPhoto item then Str (photoPath f) else entry_photo item)"
  by (simp add: update_item_def Let_def)

lemma process_file_cases:
  obtains (skip) "process_file st f = st"
  | (new) "Map_get (byName st) (normalizeName (Str (fst (splitNameAndSpecialty f)))) = None"
      "results (process_file st f) = results st @
          [new_entry f (fst (splitNameAndSpecialty f)) (snd (splitNameAndSpecialty f))]"
      "byName (process_file st f) =
          Map_set (normalizeName (Str (fst (splitNameAndSpecialty f)))) (length (results st)) (byName st)"
  | (update) idx where
      "results (process_file st f) =
          (results st)[idx := update_item (results st ! idx) f (snd (splitNameAndSpecialty f))]"
      "byName (process_file st f) = byName st"
proof (cases "fst (splitNameAndSpecialty f) = []")
  case True
  then have "process_file st f = st"
    by (cases "splitNameAndSpecialty f") (simp add: process_file_def)
  then show ?thesis by (rule skip)
next
  case False
  show ?thesis
  proof (cases "Map_get (byName st) (normalizeName (Str (fst (splitNameAndSpecialty f))))")
    case None
    with False show ?thesis
      by (intro new; cases "splitNameAndSpecialty f") (simp_all add: process_file_def Let_def)
  next
    case (Some idx)
    with False show ?thesis
      by (intro update [of idx]; cases "splitNameAndSpecialty f") (simp_all add: process_file_def Let_def)
  qed
qed

lemma process_file_length: "length (results st) \<le> length (results (process_file st f))"
  by (cases rule: process_file_cases [of st f]) simp_all

lemma process_file_keys: "fst ` set (byName st) \<subseteq> fst ` set (byName (process_file st f))"
proof (cases rule: process_file_cases [of st f])
  case new
  show ?thesis unfolding new(3) by (auto simp: Map_set_key_set)
qed simp_all

lemma process_file_old:
  assumes "i < length (results st)"
  shows "fullName (results (process_file st f) ! i) = fullName (results st ! i) \<and>
    (\<not> hasNoPhoto (results st ! i) \<longrightarrow>
       entry_photo (results (process_file st f) ! i) = entry_photo (results st ! i)) \<and>
    (entry_photo (results (process_file st f) ! i) \<noteq> entry_photo (results st ! i) \<longrightarrow>
       hasNoPhoto (results st ! i) \<and> entry_photo (results (process_file st f) ! i) = Str (photoPath f))"
proof (cases rule: process_file_cases [of st f])
  case skip
  then show ?thesis by simp
next
  case new
  then show ?thesis using assms by (simp add: nth_append)
next
  case (update idx)
  show ?thesis
  proof (cases "i = idx")
    case True
    then show ?thesis using assms
      by (simp add: update(1) update_item_fullName update_item_photo)
  next
    case False
    then show ?thesis by (simp add: update(1))
  qed
qed

lemma process_file_new:
  assumes "length (results st) \<le> i" "i < length (results (process_file st f))"
  shows "fullName (results (process_file st f) ! i) = Str (fst (splitNameAndSpecialty f)) \<and>
    entry_photo (results (process_file st f) ! i) = Str (photoPath f) \<and>
    normalizeName (Str (fst (splitNameAndSpecialty f))) \<notin> fst ` set (byName st) \<and>
    length (results (process_file st f)) = Suc (length (results st))"
proof (cases rule: process_file_cases [of st f])
  case skip
  then show ?thesis using assms by simp
next
  case new
  from assms have "i = length (results st)" by (simp add: new(2))
  then show ?thesis
    using new(1) by (simp add: new(2) new_entry_def Map_get_None_iff)
next
  case (update idx)
  then show ?thesis using assms by simp
qed

text \<open>The whole loop.\<close>

lemma initial_keys_fold:
  "fst ` set (foldl (\<lambda>m (i, e). Map_set (normalizeName (fullName e)) i m) m xs)
     = fst ` set m \<union> (\<lambda>p. normalizeName (fullName (snd p))) ` set xs"
proof (induction xs arbitrary: m)
  case Nil
  show ?case by simp
next
  case (Cons x xs)
  obtain i e where x: "x = (i, e)" by (cases x)
  have "fst ` set (Map_set (normalizeName (fullName e)) i m)
      = insert (normalizeName (fullName e)) (fst ` set m)"
    by (rule Map_set_key_set)
  then show ?case
    using Cons [of "Map_set (normalizeName (fullName e)) i m"] by (simp add: x)
qed

lemma initial_keys: "fst ` set (byName (initial_state existing)) = snapshot_keys existing"
proof -
  have "snd ` set (enumerate 0 existing) = set existing"
    by (metis map_snd_enumerate set_map)
  then have "(\<lambda>p. normalizeName (fullName (snd p))) ` set (enumerate 0 existing)
      = (\<lambda>e. normalizeName (fullName e)) ` set existing"
    using image_image [of "\<lambda>e. normalizeName (fullName e)" snd "set (enumerate 0 existing)"]
    by simp
  then show ?thesis
    by (simp add: initial_state_def initial_keys_fold snapshot_keys_def)
qed

lemma initial_positions_fold:
  "snd ` set (foldl (\<lambda>m (i, e). Map_set (normalizeName (fullName e)) i m) m xs)
     \<subseteq> snd ` set m \<union> fst ` set xs"
proof (induction xs arbitrary: m)
  case Nil
  show ?case by simp
next
  case (Cons x xs)
  obtain i e where x: "x = (i, e)" by (cases x)
  have "snd ` set (Map_set (normalizeName (fullName e)) i m) \<subseteq> insert i (snd ` set m)"
    using set_Map_set_subset [of "normalizeName (fullName e)" i m] by force
  then show ?case
    using Cons [of "Map_set (normalizeName (fullName e)) i m"] by (simp add: x) blast
qed

lemma initial_positions:
  "snd ` set (byName (initial_state existing)) \<subseteq> {..<length (results (initial_state existing))}"
proof -
  have "fst ` set (enumerate 0 existing) = {0..<length existing}"
    by (metis add_0 atLeastLessThan_upt list.set_map map_fst_enumerate)
  then show ?thesis
    using initial_positions_fold [of "[]" "enumerate 0 existing"]
    by (auto simp add: initial_state_def)
qed

lemma process_file_positions:
  assumes "snd ` set (byName st) \<subseteq> {..<length (results st)}"
  shows "snd ` set (byName (process_file st f)) \<subseteq> {..<length (results (process_file st f))}"
proof (cases rule: process_file_cases [of st f])
  case skip
  then show ?thesis using assms by simp
next
  case new
  have "snd ` set (byName (process_file st f)) \<subseteq> insert (length (results st)) (snd ` set (byName st))"
    unfolding new(3)
    using set_Map_set_subset [of "normalizeName (Str (fst (splitNameAndSpecialty f)))"
        "length (results st)" "byName st"]
    by force
  then show ?thesis using assms by (simp add: new(2) lessThan_Suc) blast
next
  case (update idx)
  then show ?thesis using assms by simp
qed

lemma loop_inv_initial: "loop_inv existing names (initial_state existing)"
  unfolding loop_inv_def
  using initial_positions [of existing]
  by (simp add: initial_keys) (auto simp add: initial_state_def)

lemma loop_inv_mono: "loop_inv existing A st \<Longrightarrow> A \<subseteq> B \<Longrightarrow> loop_inv existing B st"
  unfolding loop_inv_def by (meson subsetD)

lemma loop_inv_step:
  assumes inv: "loop_inv existing names st" and f: "f \<in> names"
  shows "loop_inv existing names (process_file st f)"
proof -
  let ?st' = "process_file st f"
  from inv have len: "length existing \<le> length (results st)"
    and keys: "snapshot_keys existing \<subseteq> fst ` set (byName st)"
    by (simp_all add: loop_inv_def)
  have len': "length existing \<le> length (results ?st')"
    using len process_file_length [of st f] by linarith
  have keys': "snapshot_keys existing \<subseteq> fst ` set (byName ?st')"
    using keys process_file_keys [of st f] by blast
  have old: "fullName (results ?st' ! i) = fullName (existing ! i) \<and>
        (\<not> hasNoPhoto (existing ! i) \<longrightarrow> entry_photo (results ?st' ! i) = entry_photo (existing ! i)) \<and>
        (entry_photo (results ?st' ! i) \<noteq> entry_photo (existing ! i) \<longrightarrow>
           hasNoPhoto (existing ! i) \<and>
           (\<exists>f \<in> names. entry_photo (results ?st' ! i) = Str (photoPath f)))"
    if i: "i < length existing" for i
  proof -
    from i len have i': "i < length (results st)" by linarith
    from inv i have a: "fullName (results st ! i) = fullName (existing ! i)"
      and b: "\<not> hasNoPhoto (existing ! i) \<Longrightarrow> entry_photo (results st ! i) = entry_photo (existing ! i)"
      and c: "entry_photo (results st ! i) \<noteq> entry_photo (existing ! i) \<Longrightarrow>
           hasNoPhoto (existing ! i) \<and> (\<exists>f \<in> names. entry_photo (results st ! i) = Str (photoPath f))"
      by (simp_all add: loop_inv_def)
    note s = process_file_old [OF i', of f]
    have 1: "fullName (results ?st' ! i) = fullName (existing ! i)" using s a by simp
    have 2: "entry_photo (results ?st' ! i) = entry_photo (existing ! i)" if "\<not> hasNoPhoto (existing ! i)"
    proof -
      from b that have e: "entry_photo (results st ! i) = entry_photo (existing ! i)" by simp
      then have "\<not> hasNoPhoto (results st ! i)" using that hasNoPhoto_cong by blast
      with s e show ?thesis by simp
    qed
    have 3: "hasNoPhoto (existing ! i) \<and> (\<exists>f \<in> names. entry_photo (results ?st' ! i) = Str (photoPath f))"
      if d: "entry_photo (results ?st' ! i) \<noteq> entry_photo (existing ! i)"
    proof (cases "entry_photo (results ?st' ! i) = entry_photo (results st ! i)")
      case True
      with d c show ?thesis by simp
    next
      case False
      with s have h: "hasNoPhoto (results st ! i)"
        and p: "entry_photo (results ?st' ! i) = Str (photoPath f)" by simp_all
      have "hasNoPhoto (existing ! i)"
      proof (cases "entry_photo (results st ! i) = entry_photo (existing ! i)")
        case True
        with h show ?thesis using hasNoPhoto_cong by blast
      next
        case False
        with c show ?thesis by simp
      qed
      with p f show ?thesis by blast
    qed
    from 1 2 3 show ?thesis by blast
  qed
  have new: "normalizeName (fullName (results ?st' ! i)) \<notin> snapshot_keys existing \<and>
        (\<exists>f \<in> names. fullName (results ?st' ! i) = Str (fst (splitNameAndSpecialty f)))"
    if i: "length existing \<le> i \<and> i < length (results ?st')" for i
  proof (cases "i < length (results st)")
    case True
    with inv i have "normalizeName (fullName (results st ! i)) \<notin> snapshot_keys existing \<and>
        (\<exists>f \<in> names. fullName (results st ! i) = Str (fst (splitNameAndSpecialty f)))"
      by (simp add: loop_inv_def)
    then show ?thesis using process_file_old [OF True, of f] by simp
  next
    case False
    then have "length (results st) \<le> i" by simp
    from process_file_new [OF this, of f] i keys f show ?thesis by auto
  qed
  have pos': "snd ` set (byName ?st') \<subseteq> {..<length (results ?st')}"
    using inv by (intro process_file_positions) (simp add: loop_inv_def)
  from len' keys' pos' old new show ?thesis unfolding loop_inv_def by blast
qed

lemma loop_inv_fold:
  "loop_inv existing names st \<Longrightarrow> set fs \<subseteq> names \<Longrightarrow> loop_inv existing names (foldl process_file st fs)"
  by (induction fs arbitrary: st) (simp_all add: loop_inv_step)

lemma main_loop_inv:
  "loop_inv existing {f \<in> set files. is_image_name f} (main_loop existing files)"
  unfolding main_loop_def by (rule loop_inv_fold [OF loop_inv_initial]) auto

lemma canonicalize_low:
  "c < 0x80 \<Longrightarrow> canonicalize c = (if 0x61 \<le> c \<and> c \<le> 0x7A then c - 0x20 else c)"
  by (simp add: canonicalize_def)

lemma real_photo_sample: "\<not> hasNoPhoto (sample_snapshot ! 0)"
  by (simp add: sample_snapshot_def hasNoPhoto_def ascii_def canonicalize_low)

subsection \<open>The claims about the linking functions and the script\<close>



text \<open>
  C8: for every image file processed, an entry of the snapshot whose photo is set and is
  not the placeholder keeps its photo; a photo is overwritten, with the path of the file,
  only when it was absent, empty or the placeholder (\<open>hasNoPhoto\<close>); and an entry is
  appended only when the normalized key of the parsed full name is not in the map of the
  names, which holds every key of the snapshot. The same then holds of the whole run:
  the entries of the snapshot stay in place with their names, a real photo is never
  changed, a changed photo is the path of an image file, and every appended entry has a
  key that the snapshot does not have.
\<close>

theorem scraper_frame:
  "(\<forall>i < length (results st).
      (\<not> hasNoPhoto (results st ! i) \<longrightarrow>
         entry_photo (results (process_file st f) ! i) = entry_photo (results st ! i)) \<and>
      (entry_photo (results (process_file st f) ! i) \<noteq> entry_photo (results st ! i) \<longrightarrow>
         hasNoPhoto (results st ! i) \<and>
         entry_photo (results (process_file st f) ! i) = Str (photoPath f))) \<and>
   (length (results st) < length (results (process_file st f)) \<longrightarrow>
      normalizeName (Str (fst (splitNameAndSpecialty f))) \<notin> fst ` set (byName st) \<and>
      length (results (process_file st f)) = Suc (length (results st))) \<and>
   length existing \<le> length (results (main_loop existing files)) \<and>
   snapshot_keys existing \<subseteq> fst ` set (byName (main_loop existing files)) \<and>
   snd ` set (byName (main_loop existing files)) \<subseteq> {..<length (results (main_loop existing files))} \<and>
   (\<forall>i < length existing.
      fullName (results (main_loop existing files) ! i) = fullName (existing ! i) \<and>
      (\<not> hasNoPhoto (existing ! i) \<longrightarrow>
         entry_photo (results (main_loop existing files) ! i) = entry_photo (existing ! i)) \<and>
      (entry_photo (results (main_loop existing files) ! i) \<noteq> entry_photo (existing ! i) \<longrightarrow>
         hasNoPhoto (existing ! i) \<and>
         (\<exists>f \<in> set files. is_image_name f \<and>
            entry_photo (results (main_loop existing files) ! i) = Str (photoPath f)))) \<and>
   (\<forall>i. length existing \<le> i \<and> i < length (results (main_loop existing files)) \<longrightarrow>
      normalizeName (fullName (results (main_loop existing files) ! i)) \<notin> snapshot_keys existing \<and>
      (\<exists>f \<in> set files. is_image_name f \<and>
         fullName (results (main_loop existing files) ! i) = Str (fst (splitNameAndSpecialty f))))"
proof -
  have step_old: "\<forall>i < length (results st).
      (\<not> hasNoPhoto (results st ! i) \<longrightarrow>
         entry_photo (results (process_file st f) ! i) = entry_photo (results st ! i)) \<and>
      (entry_photo (results (process_file st f) ! i) \<noteq> entry_photo (results st ! i) \<longrightarrow>
         hasNoPhoto (results st ! i) \<and>
         entry_photo (results (process_file st f) ! i) = Str (photoPath f))"
    using process_file_old [of _ st f] by blast
  have step_new: "length (results st) < length (results (process_file st f)) \<longrightarrow>
      normalizeName (Str (fst (splitNameAndSpecialty f))) \<notin> fst ` set (byName st) \<and>
      length (results (process_file st f)) = Suc (length (results st))"
    using process_file_new [of st "length (results st)" f] by simp
  have run: "loop_inv existing {f \<in> set files. is_image_name f} (main_loop existing files)"
    by (rule main_loop_inv)
  have ex: "(\<exists>f \<in> {f \<in> set files. is_image_name f}. P f) \<longleftrightarrow> (\<exists>f \<in> set files. is_image_name f \<and> P f)"
    for P by blast
  from run have "length existing \<le> length (results (main_loop existing files)) \<and>
   snapshot_keys existing \<subseteq> fst ` set (byName (main_loop existing files)) \<and>
   snd ` set (byName (main_loop existing files)) \<subseteq> {..<length (results (main_loop existing files))} \<and>
   (\<forall>i < length existing.
      fullName (results (main_loop existing files) ! i) = fullName (existing ! i) \<and>
      (\<not> hasNoPhoto (existing ! i) \<longrightarrow>
         entry_photo (results (main_loop existing files) ! i) = entry_photo (existing ! i)) \<and>
      (entry_photo (results (main_loop existing files) ! i) \<noteq> entry_photo (existing ! i) \<longrightarrow>
         hasNoPhoto (existing ! i) \<and>
         (\<exists>f \<in> set files. is_image_name f \<and>
            entry_photo (results (main_loop existing files) ! i) = Str (photoPath f)))) \<and>
   (\<forall>i. length existing \<le> i \<and> i < length (results (main_loop existing files)) \<longrightarrow>
      normalizeName (fullName (results (main_loop existing files) ! i)) \<notin> snapshot_keys existing \<and>
      (\<exists>f \<in> set files. is_image_name f \<and>
         fullName (results (main_loop existing files) ! i) = Str (fst (splitNameAndSpecialty f))))"
    unfolding loop_inv_def ex .
  with step_old step_new show ?thesis by (intro conjI) blast+
qed

theorem scraper_frame_witness:
  "(0::nat) < length sample_snapshot \<and> \<not> hasNoPhoto (sample_snapshot ! 0) \<and>
   entry_photo (results (main_loop sample_snapshot sample_files) ! 0)
     = Str (ascii ''https://example.org/ivanov.jpg'')"
proof -
  have l: "(0::nat) < length sample_snapshot" by (simp add: sample_snapshot_def)
  note h = real_photo_sample
  from scraper_frame [where existing = sample_snapshot and files = sample_files
      and st = "initial_state sample_snapshot" and f = "[]"]
  have "\<forall>i < length sample_snapshot.
      fullName (results (main_loop sample_snapshot sample_files) ! i) = fullName (sample_snapshot ! i) \<and>
      (\<not> hasNoPhoto (sample_snapshot ! i) \<longrightarrow>
         entry_photo (results (main_loop sample_snapshot sample_files) ! i)
           = entry_photo (sample_snapshot ! i)) \<and>
      (entry_photo (results (main_loop sample_snapshot sample_files) ! i)
           \<noteq> entry_photo (sample_snapshot ! i) \<longrightarrow>
         hasNoPhoto (sample_snapshot ! i) \<and>
         (\<exists>f \<in> set sample_files. is_image_name f \<and>
            entry_photo (results (main_loop sample_snapshot sample_files) ! i) = Str (photoPath f)))"
    by (elim conjE)
  with l h have "entry_photo (results (main_loop sample_snapshot sample_files) ! 0)
      = entry_photo (sample_snapshot ! 0)"
    by blast
  moreover have "entry_photo (sample_snapshot ! 0) = Str (ascii ''https://example.org/ivanov.jpg'')"
    by (simp add: sample_snapshot_def)
  ultimately show ?thesis using l h by simp
qed

end
